(* ===== verification/Prelude.thy ===== *)
theory Prelude
  imports Main
begin

text \<open>
  Shared vocabulary of the development: the error values a generator run can end with,
  results as sums (\<open>Inl\<close> the error), a bind on results, and the association-list
  update that models JavaScript property assignment (an existing key keeps its position,
  a new key is appended, as in the insertion order of a JavaScript object).
\<close>

named_theorems res_simps "rewrite rules for results of the model"

datatype error =
    TypeError string
  | FileNotFound string
  | ParseError string
  | ProjectNotFound string

type_synonym 'a result = "error + 'a"

definition bind_res :: "'a result \<Rightarrow> ('a \<Rightarrow> 'b result) \<Rightarrow> 'b result" where
  "bind_res r f = (case r of Inl e \<Rightarrow> Inl e | Inr a \<Rightarrow> f a)"

fun alist_set :: "'k \<Rightarrow> 'v \<Rightarrow> ('k \<times> 'v) list \<Rightarrow> ('k \<times> 'v) list" where
  "alist_set k v [] = [(k, v)]"
| "alist_set k v ((k', v') # kvs) =
     (if k = k' then (k, v) # kvs else (k', v') # alist_set k v kvs)"

lemma bind_res_Inl [simp, res_simps]: "bind_res (Inl e) f = Inl e"
  by (simp add: bind_res_def)

lemma bind_res_Inr [simp, res_simps]: "bind_res (Inr a) f = f a"
  by (simp add: bind_res_def)

lemma bind_res_eq_Inr [res_simps]:
  "bind_res r f = Inr b \<longleftrightarrow> (\<exists>a. r = Inr a \<and> f a = Inr b)"
  by (cases r) auto

lemma bind_res_eq_Inl [res_simps]:
  "bind_res r f = Inl e \<longleftrightarrow> r = Inl e \<or> (\<exists>a. r = Inr a \<and> f a = Inl e)"
  by (cases r) auto

lemma bind_res_assoc [res_simps]:
  "bind_res (bind_res r f) g = bind_res r (\<lambda>a. bind_res (f a) g)"
  by (cases r) auto

lemma map_of_alist_set [simp]: "map_of (alist_set k v kvs) = (map_of kvs)(k \<mapsto> v)"
  by (induction kvs) (auto simp: fun_eq_iff)

lemma keys_alist_set:
  "map fst (alist_set k v kvs) = (if k \<in> set (map fst kvs) then map fst kvs else map fst kvs @ [k])"
proof (induction kvs)
  case Nil
  then show ?case by simp
next
  case (Cons kv kvs)
  then show ?case by (cases kv) (simp split: if_splits)
qed

lemma alist_set_absent: "k \<notin> set (map fst kvs) \<Longrightarrow> alist_set k v kvs = kvs @ [(k, v)]"
  by (induction kvs) auto

lemma alist_set_same: "map_of kvs k = Some v \<Longrightarrow> alist_set k v kvs = kvs"
  by (induction kvs) (auto split: if_splits)

lemma alist_set_twice [simp]: "alist_set k w (alist_set k v kvs) = alist_set k w kvs"
  by (induction kvs) auto

lemma distinct_alist_set [simp]:
  "distinct (map fst (alist_set k v kvs)) = distinct (map fst kvs)"
  by (simp add: keys_alist_set)

lemma list_all_alist_set:
  "list_all P kvs \<Longrightarrow> P (k, v) \<Longrightarrow> list_all P (alist_set k v kvs)"
  by (induction kvs) auto

lemma set_alist_set_values:
  "(k', v') \<in> set (alist_set k v kvs) \<Longrightarrow> (k' = k \<and> v' = v) \<or> (k', v') \<in> set kvs"
  by (induction kvs) (auto split: if_splits)

end
