(* ===== verification/Json.thy ===== *)
theory Json
  imports Prelude
begin

text \<open>
  The configuration documents the generator edits, as the JavaScript values
  \<open>JSON.parse\<close> and the devkit's \<open>parseJson\<close> produce: null, booleans, numbers, strings,
  arrays and objects. An object is an association list in insertion order, the order
  \<open>JSON.stringify\<close> writes its keys in. \<open>json option\<close> is a value read from a
  property, \<open>None\<close> being \<open>undefined\<close>.
  Numbers are kept as \<open>int\<close>: the generator only asks whether a number is truthy
  (non-zero), so fractional numbers would behave the same.
  The operations below are the JavaScript operations the updaters of
  \<open>vitest-generator.ts\<close> use: property read, property assignment in strict mode
  (the module is compiled as an ES module), truthiness, the nullish test of \<open>??=\<close>,
  \<open>Array.prototype.some\<close> and \<open>Array.prototype.push\<close>.
  Property reads model keys that no built-in prototype defines (\<open>references\<close>,
  \<open>path\<close>, \<open>compilerOptions\<close>, \<open>types\<close>): on a primitive or an array they
  are \<open>undefined\<close>.
\<close>

datatype json =
    JNull
  | JBool bool
  | JNum int
  | JStr string
  | JArr "json list"
  | JObj "(string \<times> json) list"

text \<open>\<open>v.k\<close>: reading a property of \<open>undefined\<close> or \<open>null\<close> throws a TypeError.\<close>

fun get_prop :: "json option \<Rightarrow> string \<Rightarrow> json option result" where
  "get_prop None k = Inl (TypeError (''Cannot read properties of undefined (reading '' @ k @ '')''))"
| "get_prop (Some JNull) k = Inl (TypeError (''Cannot read properties of null (reading '' @ k @ '')''))"
| "get_prop (Some (JObj kvs)) k = Inr (map_of kvs k)"
| "get_prop (Some _) k = Inr None"

text \<open>
  \<open>v.k = x\<close> in strict mode. On an object the key is replaced in place or appended;
  on an array the assignment creates a non-index property, which no JSON text shows,
  so the serialisable value is unchanged; on a primitive, \<open>undefined\<close> or \<open>null\<close>
  strict mode throws. The result is the new value of \<open>v\<close>.
\<close>

fun assign_prop :: "json option \<Rightarrow> string \<Rightarrow> json \<Rightarrow> json result" where
  "assign_prop (Some (JObj kvs)) k x = Inr (JObj (alist_set k x kvs))"
| "assign_prop (Some (JArr xs)) k x = Inr (JArr xs)"
| "assign_prop None k x = Inl (TypeError (''Cannot set properties of undefined (setting '' @ k @ '')''))"
| "assign_prop (Some JNull) k x = Inl (TypeError (''Cannot set properties of null (setting '' @ k @ '')''))"
| "assign_prop (Some _) k x = Inl (TypeError (''Cannot create property '' @ k @ '' on primitive''))"

fun truthy :: "json option \<Rightarrow> bool" where
  "truthy None = False"
| "truthy (Some JNull) = False"
| "truthy (Some (JBool b)) = b"
| "truthy (Some (JNum n)) = (n \<noteq> 0)"
| "truthy (Some (JStr s)) = (s \<noteq> [])"
| "truthy (Some (JArr xs)) = True"
| "truthy (Some (JObj kvs)) = True"

fun nullish :: "json option \<Rightarrow> bool" where
  "nullish None = True"
| "nullish (Some JNull) = True"
| "nullish (Some _) = False"

text \<open>
  \<open>Array.prototype.some\<close>: the callback runs on the elements from the first, and
  the loop stops at the first \<open>true\<close>; an exception of the callback ends it.
\<close>

fun js_some :: "(json \<Rightarrow> bool result) \<Rightarrow> json list \<Rightarrow> bool result" where
  "js_some p [] = Inr False"
| "js_some p (x # xs) = bind_res (p x) (\<lambda>b. if b then Inr True else js_some p xs)"

text \<open>\<open>v.some(p)\<close>: only an array has the method; calling it on anything else throws.\<close>

fun array_some :: "json option \<Rightarrow> (json \<Rightarrow> bool result) \<Rightarrow> bool result" where
  "array_some (Some (JArr xs)) p = js_some p xs"
| "array_some v p = Inl (TypeError ''some is not a function'')"

text \<open>\<open>v.push(x)\<close>; the result is the new array.\<close>

fun array_push :: "json option \<Rightarrow> json \<Rightarrow> json result" where
  "array_push (Some (JArr xs)) x = Inr (JArr (xs @ [x]))"
| "array_push v x = Inl (TypeError ''push is not a function'')"

text \<open>
  A document as \<open>JSON.parse\<close> builds it has pairwise distinct keys in each object
  (a repeated key is assigned again, not added).
\<close>

fun wf_json :: "json \<Rightarrow> bool" where
  "wf_json (JArr xs) = list_all wf_json xs"
| "wf_json (JObj kvs) = (distinct (map fst kvs) \<and> list_all (\<lambda>kv. wf_json (snd kv)) kvs)"
| "wf_json _ = True"

subsection \<open>Lemmas on the JavaScript operations\<close>

lemma get_prop_eq_Inl:
  "get_prop v k = Inl e \<longleftrightarrow>
     (v = None \<and> e = TypeError (''Cannot read properties of undefined (reading '' @ k @ '')''))
   \<or> (v = Some JNull \<and> e = TypeError (''Cannot read properties of null (reading '' @ k @ '')''))"
  by (cases "(v, k)" rule: get_prop.cases) auto

lemma get_prop_Some_JObj_iff:
  "get_prop (Some j) k = Inr (Some x) \<longleftrightarrow> (\<exists>kvs. j = JObj kvs \<and> map_of kvs k = Some x)"
  by (cases j) auto

lemma js_some_Inr_iff:
  assumes "\<forall>x \<in> set xs. \<exists>b. p x = Inr b"
  shows "js_some p xs = Inr (\<exists>x \<in> set xs. p x = Inr True)"
  using assms by (induction xs) auto

lemma js_some_True: "js_some p xs = Inr True \<Longrightarrow> \<exists>x \<in> set xs. p x = Inr True"
  by (induction xs) (auto simp: bind_res_eq_Inr split: if_splits)

lemma js_some_False: "js_some p xs = Inr False \<Longrightarrow> \<forall>x \<in> set xs. p x = Inr False"
  by (induction xs) (auto simp: bind_res_eq_Inr split: if_splits)

lemma js_some_append_True:
  "js_some p xs = Inr True \<Longrightarrow> js_some p (xs @ ys) = Inr True"
proof (induction xs)
  case (Cons x xs)
  then show ?case by (cases "p x") (auto split: if_splits)
qed simp

lemma js_some_append_False:
  "js_some p xs = Inr False \<Longrightarrow> js_some p (xs @ ys) = js_some p ys"
proof (induction xs)
  case (Cons x xs)
  then show ?case by (cases "p x") (auto split: if_splits)
qed simp

lemma wf_json_alist_set:
  "wf_json (JObj kvs) \<Longrightarrow> wf_json x \<Longrightarrow> wf_json (JObj (alist_set k x kvs))"
  by (auto simp: list_all_iff dest: set_alist_set_values)

lemma wf_json_assign_prop:
  "wf_json j \<Longrightarrow> wf_json x \<Longrightarrow> assign_prop (Some j) k x = Inr j' \<Longrightarrow> wf_json j'"
  by (cases j) (auto intro: wf_json_alist_set)

lemma wf_json_array_push:
  "v = Some a \<Longrightarrow> wf_json a \<Longrightarrow> wf_json x \<Longrightarrow> array_push v x = Inr a' \<Longrightarrow> wf_json a'"
  by (cases "(v, x)" rule: array_push.cases) auto

lemma wf_json_map_of:
  "wf_json (JObj kvs) \<Longrightarrow> map_of kvs k = Some v \<Longrightarrow> wf_json v"
  by (auto simp: list_all_iff dest: map_of_SomeD)

end
