(* ===== verification/Json_Codec.thy ===== *)
theory Json_Codec
  imports Json
begin

text \<open>
  The devkit's JSON text codec, which \<open>updateJson\<close> uses around each callback
  (not in the sources; modelled from the spec's "host configuration-serialization"
  and from the behaviour of \<open>JSON.stringify(value, null, 2)\<close>):
  \<^item> \<open>serialize_json\<close>: two-space indentation, one element or member per line,
    \<open>"key": value\<close>, empty arrays and objects as \<open>[]\<close> and \<open>{}\<close>, strings
    escaped as \<open>JSON.stringify\<close> escapes them (quote, backslash, the short escapes
    \<open>\b \f \n \r \t\<close>, other control characters as \<open>\u00xx\<close>);
  \<^item> \<open>parse_json\<close>: a recursive-descent parser of JSON text with whitespace,
    building objects by property assignment (a repeated key keeps its first position
    and its last value, as \<open>JSON.parse\<close> and the devkit's parser do). Numbers are
    integers; comments, trailing commas, fractions and exponents are not accepted
    (the model reports them as parse errors). The parser carries fuel, one unit per
    nested call; \<open>parse_json\<close> gives it the length of the text plus one, and the
    roundtrip theorem shows that this is enough for every serialised document.
\<close>

subsection \<open>Characters\<close>

definition quote_char :: char where "quote_char = CHR 0x22"
definition backslash :: char where "backslash = CHR 0x5C"
definition newline :: char where "newline = CHR 0x0A"

definition is_ws :: "char \<Rightarrow> bool" where
  "is_ws c \<longleftrightarrow> c = CHR 0x20 \<or> c = CHR 0x0A \<or> c = CHR 0x0D \<or> c = CHR 0x09"

definition is_digit :: "char \<Rightarrow> bool" where
  "is_digit c \<longleftrightarrow> (48::nat) \<le> of_char c \<and> of_char c \<le> (57::nat)"

definition hex_digit :: "nat \<Rightarrow> char" where
  "hex_digit n = (if n < 10 then char_of (48 + n) else char_of (87 + n))"

definition hex_value :: "char \<Rightarrow> nat option" where
  "hex_value c =
     (if is_digit c then Some (of_char c - 48)
      else if (97::nat) \<le> of_char c \<and> of_char c \<le> (102::nat) then Some (of_char c - 87)
      else if (65::nat) \<le> of_char c \<and> of_char c \<le> (70::nat) then Some (of_char c - 55)
      else None)"

subsection \<open>Serialisation\<close>

text \<open>The escape \<open>JSON.stringify\<close> writes for one character of a string.\<close>

definition escape_char :: "char \<Rightarrow> string" where
  "escape_char c =
     (if c = quote_char then [backslash, quote_char]
      else if c = backslash then [backslash, backslash]
      else if c = CHR 0x08 then [backslash, CHR ''b'']
      else if c = CHR 0x0C then [backslash, CHR ''f'']
      else if c = CHR 0x0A then [backslash, CHR ''n'']
      else if c = CHR 0x0D then [backslash, CHR ''r'']
      else if c = CHR 0x09 then [backslash, CHR ''t'']
      else if of_char c < (32::nat)
        then [backslash, CHR ''u'', CHR ''0'', CHR ''0'',
              hex_digit (of_char c div 16), hex_digit (of_char c mod 16)]
      else [c])"

definition quote :: "string \<Rightarrow> string" where
  "quote s = quote_char # concat (map escape_char s) @ [quote_char]"

fun nat_digits :: "nat \<Rightarrow> string" where
  "nat_digits n = (if n < 10 then [char_of (48 + n)] else nat_digits (n div 10) @ [char_of (48 + n mod 10)])"

declare nat_digits.simps [simp del]

definition show_int :: "int \<Rightarrow> string" where
  "show_int i = (if i < 0 then CHR ''-'' # nat_digits (nat (- i)) else nat_digits (nat i))"

definition indent :: "nat \<Rightarrow> string" where
  "indent d = replicate (2 * d) (CHR 0x20)"

fun stringify :: "nat \<Rightarrow> json \<Rightarrow> string"
  and stringify_elems :: "nat \<Rightarrow> json list \<Rightarrow> string"
  and stringify_members :: "nat \<Rightarrow> (string \<times> json) list \<Rightarrow> string" where
  "stringify d JNull = ''null''"
| "stringify d (JBool b) = (if b then ''true'' else ''false'')"
| "stringify d (JNum i) = show_int i"
| "stringify d (JStr s) = quote s"
| "stringify d (JArr []) = ''[]''"
| "stringify d (JArr (x # xs)) =
     CHR ''['' # newline # indent (Suc d) @ stringify (Suc d) x @ stringify_elems (Suc d) xs
     @ newline # indent d @ '']''"
| "stringify d (JObj []) = ''{}''"
| "stringify d (JObj ((k, v) # kvs)) =
     CHR ''{'' # newline # indent (Suc d) @ quote k @ '': '' @ stringify (Suc d) v
     @ stringify_members (Suc d) kvs @ newline # indent d @ ''}''"
| "stringify_elems d [] = []"
| "stringify_elems d (x # xs) = CHR '','' # newline # indent d @ stringify d x @ stringify_elems d xs"
| "stringify_members d [] = []"
| "stringify_members d ((k, v) # kvs) =
     CHR '','' # newline # indent d @ quote k @ '': '' @ stringify d v @ stringify_members d kvs"

definition serialize_json :: "json \<Rightarrow> string" where
  "serialize_json j = stringify 0 j"

subsection \<open>Parsing\<close>

fun skip_ws :: "string \<Rightarrow> string" where
  "skip_ws [] = []"
| "skip_ws (c # cs) = (if is_ws c then skip_ws cs else c # cs)"

text \<open>The body of a string literal, after its opening quote, up to the closing one.\<close>

fun parse_str_body :: "string \<Rightarrow> (string \<times> string) option" where
  "parse_str_body [] = None"
| "parse_str_body (c # cs) =
     (if c = quote_char then Some ([], cs)
      else if c = backslash then
        (case cs of
           [] \<Rightarrow> None
         | e # r \<Rightarrow>
             if e = CHR ''u'' then
               (case r of
                  h1 # h2 # h3 # h4 # r' \<Rightarrow>
                    (case (hex_value h1, hex_value h2, hex_value h3, hex_value h4) of
                       (Some 0, Some 0, Some a, Some b) \<Rightarrow>
                         (if 16 * a + b < 128
                          then map_option (\<lambda>(s, t). (char_of (16 * a + b) # s, t)) (parse_str_body r')
                          else None)
                     | _ \<Rightarrow> None)
                | _ \<Rightarrow> None)
             else
               (let d = (if e = quote_char then Some quote_char
                         else if e = backslash then Some backslash
                         else if e = CHR ''/'' then Some (CHR ''/'')
                         else if e = CHR ''b'' then Some (CHR 0x08)
                         else if e = CHR ''f'' then Some (CHR 0x0C)
                         else if e = CHR ''n'' then Some (CHR 0x0A)
                         else if e = CHR ''r'' then Some (CHR 0x0D)
                         else if e = CHR ''t'' then Some (CHR 0x09)
                         else None)
                in case d of
                     None \<Rightarrow> None
                   | Some ch \<Rightarrow> map_option (\<lambda>(s, t). (ch # s, t)) (parse_str_body r)))
      else if of_char c < (32::nat) then None
      else map_option (\<lambda>(s, t). (c # s, t)) (parse_str_body cs))"

fun digits_value :: "nat \<Rightarrow> string \<Rightarrow> nat \<times> string" where
  "digits_value acc [] = (acc, [])"
| "digits_value acc (c # cs) =
     (if is_digit c then digits_value (10 * acc + (of_char c - 48)) cs else (acc, c # cs))"

text \<open>An integer literal: an optional minus, then \<open>0\<close> or a digit sequence without a leading zero.\<close>

definition parse_nat_lit :: "string \<Rightarrow> (nat \<times> string) option" where
  "parse_nat_lit s =
     (case s of
        [] \<Rightarrow> None
      | c # cs \<Rightarrow>
          if c = CHR ''0'' then (case cs of d # _ \<Rightarrow> if is_digit d then None else Some (0, cs) | [] \<Rightarrow> Some (0, cs))
          else if is_digit c then Some (digits_value (of_char c - 48) cs)
          else None)"

definition parse_number :: "string \<Rightarrow> (json \<times> string) option" where
  "parse_number s =
     (case s of
        c # cs \<Rightarrow>
          if c = CHR ''-'' then map_option (\<lambda>(n, t). (JNum (- int n), t)) (parse_nat_lit cs)
          else map_option (\<lambda>(n, t). (JNum (int n), t)) (parse_nat_lit s)
      | [] \<Rightarrow> None)"

function (sequential) parse_value :: "nat \<Rightarrow> string \<Rightarrow> (json \<times> string) option"
  and parse_elems :: "nat \<Rightarrow> json list \<Rightarrow> string \<Rightarrow> (json list \<times> string) option"
  and parse_member :: "nat \<Rightarrow> (string \<times> json) list \<Rightarrow> string \<Rightarrow> ((string \<times> json) list \<times> string) option"
  and parse_members :: "nat \<Rightarrow> (string \<times> json) list \<Rightarrow> string \<Rightarrow> ((string \<times> json) list \<times> string) option" where
  "parse_value 0 s = None"
| "parse_value (Suc f) s =
     (case skip_ws s of
        [] \<Rightarrow> None
      | c # cs \<Rightarrow>
          if c = CHR ''n'' then (if take 3 cs = ''ull'' then Some (JNull, drop 3 cs) else None)
          else if c = CHR ''t'' then (if take 3 cs = ''rue'' then Some (JBool True, drop 3 cs) else None)
          else if c = CHR ''f'' then (if take 4 cs = ''alse'' then Some (JBool False, drop 4 cs) else None)
          else if c = quote_char then map_option (\<lambda>(s', t). (JStr s', t)) (parse_str_body cs)
          else if c = CHR ''['' then
            (case skip_ws cs of
               d # r \<Rightarrow> if d = CHR '']'' then Some (JArr [], r)
                        else (case parse_value f cs of
                                None \<Rightarrow> None
                              | Some (x, r') \<Rightarrow> map_option (\<lambda>(xs, t). (JArr xs, t)) (parse_elems f [x] r'))
             | [] \<Rightarrow> None)
          else if c = CHR ''{'' then
            (case skip_ws cs of
               d # r \<Rightarrow> if d = CHR ''}'' then Some (JObj [], r)
                        else map_option (\<lambda>(kvs, t). (JObj kvs, t)) (parse_member f [] cs)
             | [] \<Rightarrow> None)
          else if c = CHR ''-'' \<or> is_digit c then parse_number (c # cs)
          else None)"
| "parse_elems 0 acc s = None"
| "parse_elems (Suc f) acc s =
     (case skip_ws s of
        c # r \<Rightarrow>
          if c = CHR '']'' then Some (acc, r)
          else if c = CHR '','' then
            (case parse_value f r of
               None \<Rightarrow> None
             | Some (x, r') \<Rightarrow> parse_elems f (acc @ [x]) r')
          else None
      | [] \<Rightarrow> None)"
| "parse_member 0 acc s = None"
| "parse_member (Suc f) acc s =
     (case skip_ws s of
        c # r \<Rightarrow>
          if c = quote_char then
            (case parse_str_body r of
               None \<Rightarrow> None
             | Some (k, r1) \<Rightarrow>
                 (case skip_ws r1 of
                    e # r2 \<Rightarrow>
                      if e = CHR '':'' then
                        (case parse_value f r2 of
                           None \<Rightarrow> None
                         | Some (v, r3) \<Rightarrow> parse_members f (alist_set k v acc) r3)
                      else None
                  | [] \<Rightarrow> None))
          else None
      | [] \<Rightarrow> None)"
| "parse_members 0 acc s = None"
| "parse_members (Suc f) acc s =
     (case skip_ws s of
        c # r \<Rightarrow>
          if c = CHR ''}'' then Some (acc, r)
          else if c = CHR '','' then parse_member f acc r
          else None
      | [] \<Rightarrow> None)"

  by pat_completeness auto
termination
  by (relation "measure (\<lambda>x. case x of Inl (Inl (f, _)) \<Rightarrow> f | Inl (Inr (f, _)) \<Rightarrow> f
       | Inr (Inl (f, _)) \<Rightarrow> f | Inr (Inr (f, _)) \<Rightarrow> f)") auto

definition parse_json :: "string \<Rightarrow> json result" where
  "parse_json s =
     (case parse_value (Suc (length s)) s of
        Some (j, r) \<Rightarrow> if skip_ws r = [] then Inr j else Inl (ParseError ''unexpected text after the value'')
      | None \<Rightarrow> Inl (ParseError ''invalid JSON''))"

subsection \<open>Lemmas: escapes, numerals, whitespace\<close>

lemma hex_value_hex_digit: "n < 16 \<Longrightarrow> hex_value (hex_digit n) = Some n"
  by (auto simp: hex_value_def hex_digit_def is_digit_def)

lemma hex_value_zero [simp]: "hex_value (CHR ''0'') = Some 0"
  by (simp add: hex_value_def is_digit_def)

lemma parse_str_body_escape_char:
  "parse_str_body (escape_char c @ rest) = map_option (\<lambda>(s, t). (c # s, t)) (parse_str_body rest)"
proof -
  consider (q) "c = quote_char" | (b) "c = backslash" | (s) "c \<in> {CHR 0x08, CHR 0x0C, CHR 0x0A, CHR 0x0D, CHR 0x09}"
    | (u) "c \<noteq> quote_char" "c \<noteq> backslash" "c \<notin> {CHR 0x08, CHR 0x0C, CHR 0x0A, CHR 0x0D, CHR 0x09}" "of_char c < (32::nat)"
    | (p) "c \<noteq> quote_char" "c \<noteq> backslash" "c \<notin> {CHR 0x08, CHR 0x0C, CHR 0x0A, CHR 0x0D, CHR 0x09}" "\<not> of_char c < (32::nat)"
    by blast
  then show ?thesis
  proof cases
    case q
    then show ?thesis by (simp add: escape_char_def quote_char_def backslash_def)
  next
    case b
    then show ?thesis by (simp add: escape_char_def quote_char_def backslash_def)
  next
    case s
    then show ?thesis by (auto simp: escape_char_def quote_char_def backslash_def)
  next
    case u
    have lt: "of_char c div 16 < (16::nat)" "of_char c mod 16 < (16::nat)" using u(4) by auto
    have eq: "16 * (of_char c div 16) + of_char c mod 16 = (of_char c :: nat)" by simp
    from u show ?thesis
      by (simp add: escape_char_def quote_char_def backslash_def hex_value_hex_digit lt eq)
  next
    case p
    then show ?thesis by (simp add: escape_char_def quote_char_def backslash_def)
  qed
qed

lemma parse_str_body_quote:
  "parse_str_body (concat (map escape_char s) @ quote_char # rest) = Some (s, rest)"
  by (induction s) (simp_all add: parse_str_body_escape_char)


definition digit_step :: "nat \<Rightarrow> char \<Rightarrow> nat" where
  "digit_step a c = 10 * a + (of_char c - 48)"

lemma digits_value_append:
  "list_all is_digit ds \<Longrightarrow> digits_value acc (ds @ rest) = digits_value (foldl digit_step acc ds) rest"
  by (induction ds arbitrary: acc) (simp_all add: digit_step_def)

lemma digits_value_stop:
  "(rest = [] \<or> \<not> is_digit (hd rest)) \<Longrightarrow> digits_value acc rest = (acc, rest)"
  by (cases rest) auto

lemma nat_digits_digits: "list_all is_digit (nat_digits n)"
proof (induction n rule: nat_digits.induct)
  case (1 n)
  then show ?case by (subst nat_digits.simps) (auto simp: is_digit_def list_all_iff)
qed

lemma char_of_digit_zero:
  "char_of (48 + n) = CHR ''0'' \<longleftrightarrow> (48 + n) mod 256 = (48::nat)"
proof -
  have z: "of_char (CHR ''0'') = (48::nat)" by simp
  have "char_of (48 + n) = CHR ''0'' \<longleftrightarrow> of_char (char_of (48 + n)) = (of_char (CHR ''0'') :: nat)"
    by (simp only: of_char_eq_iff)
  then show ?thesis by (simp only: of_char_of z)
qed

lemma foldl_nat_digits:
  "foldl digit_step acc (nat_digits n) = acc * 10 ^ length (nat_digits n) + n"
proof (induction n arbitrary: acc rule: nat_digits.induct)
  case (1 n)
  show ?case
  proof (cases "n < 10")
    case True
    then show ?thesis by (simp add: nat_digits.simps [of n] digit_step_def)
  next
    case False
    then have "nat_digits n = nat_digits (n div 10) @ [char_of (48 + n mod 10)]"
      by (subst nat_digits.simps) simp
    with False "1.IH" [of acc] show ?thesis
      by (simp add: digit_step_def algebra_simps)
  qed
qed

lemma nat_digits_hd:
  "\<exists>c cs. nat_digits n = c # cs \<and> (c = CHR ''0'' \<longleftrightarrow> n = 0)"
proof (induction n rule: nat_digits.induct)
  case (1 n)
  show ?case
  proof (cases "n < 10")
    case True
    then show ?thesis by (simp add: nat_digits.simps [of n] char_of_digit_zero)
  next
    case False
    with "1.IH" obtain c cs where "nat_digits (n div 10) = c # cs" "c = CHR ''0'' \<longleftrightarrow> n div 10 = 0"
      by auto
    with False show ?thesis by (subst nat_digits.simps) auto
  qed
qed

lemma nat_digits_zero: "nat_digits 0 = [CHR ''0'']"
  by (simp add: nat_digits.simps [of 0] char_of_digit_zero [of 0, simplified])

lemma parse_nat_lit_digits:
  assumes "rest = [] \<or> \<not> is_digit (hd rest)"
  shows "parse_nat_lit (nat_digits n @ rest) = Some (n, rest)"
proof (cases "n = 0")
  case True
  with assms show ?thesis
    by (cases rest) (simp_all add: nat_digits_zero parse_nat_lit_def)
next
  case False
  obtain c cs where ncs: "nat_digits n = c # cs" and z: "c = CHR ''0'' \<longleftrightarrow> n = 0"
    using nat_digits_hd [of n] by (elim exE conjE) simp
  have dig: "list_all is_digit (c # cs)" using nat_digits_digits [of n] ncs by simp
  have c0: "c \<noteq> CHR ''0''" using z False by simp
  have dc: "is_digit c" using dig by simp
  have fn: "foldl digit_step 0 (c # cs) = n"
    using foldl_nat_digits [of 0 n] ncs by simp
  have "digits_value 0 ((c # cs) @ rest) = digits_value (foldl digit_step 0 (c # cs)) rest"
    using dig by (rule digits_value_append)
  also have "\<dots> = (foldl digit_step 0 (c # cs), rest)"
    using assms by (rule digits_value_stop)
  finally have "digits_value 0 ((c # cs) @ rest) = (n, rest)"
    by (simp only: fn)
  with dc have dv: "digits_value (of_char c - 48) (cs @ rest) = (n, rest)"
    by (simp add: digit_step_def)
  show ?thesis
    using ncs c0 dc dv by (simp add: parse_nat_lit_def)
qed

lemma parse_number_show_int:
  assumes "rest = [] \<or> \<not> is_digit (hd rest)"
  shows "parse_number (show_int i @ rest) = Some (JNum i, rest)"
proof (cases "i < 0")
  case True
  then show ?thesis using parse_nat_lit_digits [OF assms, of "nat (- i)"]
    by (simp add: parse_number_def show_int_def)
next
  case False
  obtain c cs where ncs: "nat_digits (nat i) = c # cs" using nat_digits_hd [of "nat i"] by auto
  have "is_digit c" using nat_digits_digits [of "nat i"] ncs by simp
  then have "c \<noteq> CHR ''-''" by (auto simp: is_digit_def)
  with False ncs show ?thesis using parse_nat_lit_digits [OF assms, of "nat i"]
    by (simp add: parse_number_def show_int_def)
qed

lemma skip_ws_ws_prefix: "list_all is_ws w \<Longrightarrow> skip_ws (w @ s) = skip_ws s"
  by (induction w) auto

lemma indent_ws: "list_all is_ws (indent d)"
  by (simp add: indent_def is_ws_def list_all_iff)

lemma newline_ws: "is_ws newline"
  by (simp add: newline_def is_ws_def)

lemma skip_ws_closer:
  "skip_ws (newline # indent d @ s) = skip_ws s"
  using skip_ws_ws_prefix [of "newline # indent d" s] by (simp add: indent_ws newline_ws)

lemma parse_value_ws: "list_all is_ws w \<Longrightarrow> parse_value f (w @ s) = parse_value f s"
  by (cases f) (simp_all add: skip_ws_ws_prefix)

lemma parse_value_closer: "parse_value f (newline # indent d @ s) = parse_value f s"
  using parse_value_ws [of "newline # indent d" f s] by (simp add: indent_ws newline_ws)

lemma parse_value_space: "parse_value f (CHR 0x20 # s) = parse_value f s"
  using parse_value_ws [of "[CHR 0x20]" f s] by (simp add: is_ws_def)

lemma parse_member_closer: "parse_member f acc (newline # indent d @ s) = parse_member f acc s"
  by (cases f) (simp_all only: parse_member.simps skip_ws_closer)

lemma show_int_first: "\<exists>c cs. show_int i = c # cs \<and> (c = CHR ''-'' \<or> is_digit c)"
proof -
  obtain c cs where ncs: "nat_digits (nat (if i < 0 then - i else i)) = c # cs"
    using nat_digits_hd by blast
  have "is_digit c" using nat_digits_digits [of "nat (if i < 0 then - i else i)"] ncs by simp
  with ncs show ?thesis by (auto simp: show_int_def split: if_splits)
qed

lemma is_digit_not_special:
  "is_digit c \<Longrightarrow> \<not> is_ws c \<and> c \<noteq> CHR '']'' \<and> c \<noteq> CHR ''}'' \<and> c \<noteq> CHR ''n'' \<and> c \<noteq> CHR ''t''
     \<and> c \<noteq> CHR ''f'' \<and> c \<noteq> quote_char \<and> c \<noteq> CHR ''['' \<and> c \<noteq> CHR ''{'' \<and> c \<noteq> CHR '','' \<and> c \<noteq> newline"
  by (auto simp: is_digit_def is_ws_def quote_char_def newline_def)

lemma stringify_first:
  "\<exists>c s. stringify d j = c # s \<and> \<not> is_ws c \<and> c \<noteq> CHR '']'' \<and> c \<noteq> CHR ''}''"
proof (cases j)
  case (JNum i)
  then show ?thesis using show_int_first [of i] is_digit_not_special by (auto simp: is_ws_def)
next
  case (JArr xs)
  then show ?thesis by (cases xs) (auto simp: is_ws_def)
next
  case (JObj kvs)
  then show ?thesis by (cases kvs) (auto simp: is_ws_def split: prod.split)
qed (auto simp: is_ws_def quote_def quote_char_def)

lemma skip_ws_stringify: "skip_ws (stringify d j @ r) = stringify d j @ r"
  using stringify_first [of d j] by auto

lemma stringify_elems_first:
  "stringify_elems d xs @ newline # s = c # t \<Longrightarrow> \<not> is_digit c"
  by (cases xs) (auto simp: is_digit_def newline_def)

lemma stringify_members_first:
  "stringify_members d kvs @ newline # s = c # t \<Longrightarrow> \<not> is_digit c"
proof (cases kvs)
  case (Cons kv kvs')
  then show "stringify_members d kvs @ newline # s = c # t \<Longrightarrow> \<not> is_digit c"
    by (cases kv) (auto simp: is_digit_def)
qed (auto simp: is_digit_def newline_def)


lemma skip_ws_nonws: "\<not> is_ws c \<Longrightarrow> skip_ws (c # cs) = c # cs"
  by simp

declare skip_ws.simps(2) [simp del]

lemma parse_member_step:
  assumes "parse_value f (stringify d v @ r) = Some (v, r)"
  shows "parse_member (Suc f) acc (quote k @ CHR '':'' # CHR 0x20 # stringify d v @ r) =
           parse_members f (alist_set k v acc) r"
proof -
  have q: "quote k @ CHR '':'' # CHR 0x20 # stringify d v @ r =
             quote_char # (concat (map escape_char k) @ quote_char # CHR '':'' # CHR 0x20 # stringify d v @ r)"
    by (simp add: quote_def)
  have pv: "parse_value f (CHR 0x20 # stringify d v @ r) = Some (v, r)"
    using assms by (simp only: parse_value_space)
  show ?thesis
    by (simp only: q parse_member.simps) (simp add: skip_ws_nonws is_ws_def quote_char_def parse_str_body_quote [unfolded quote_char_def] pv [unfolded quote_char_def])
qed

lemma parse_stringify:
  "wf_json j \<Longrightarrow> \<forall>f rest. length (stringify d j) < f \<longrightarrow> (rest = [] \<or> \<not> is_digit (hd rest)) \<longrightarrow>
     parse_value f (stringify d j @ rest) = Some (j, rest)"
  "list_all wf_json xs \<Longrightarrow> \<forall>f acc d' rest. length (stringify_elems d xs) < f \<longrightarrow>
     parse_elems f acc (stringify_elems d xs @ newline # indent d' @ CHR '']'' # rest) = Some (acc @ xs, rest)"
  "list_all (\<lambda>kv. wf_json (snd kv)) kvs \<Longrightarrow> \<forall>f acc d' rest.
     distinct (map fst acc @ map fst kvs) \<longrightarrow> length (stringify_members d kvs) < f \<longrightarrow>
     parse_members f acc (stringify_members d kvs @ newline # indent d' @ CHR ''}'' # rest) = Some (acc @ kvs, rest)"
proof (induction d j and d xs and d kvs rule: stringify_stringify_elems_stringify_members.induct)
  case (1 d)
  show ?case
  proof (intro allI impI)
    fix f rest assume "length (stringify d JNull) < f"
    then obtain f' where "f = Suc f'" by (cases f) auto
    then show "parse_value f (stringify d JNull @ rest) = Some (JNull, rest)"
      by (simp add: is_ws_def quote_char_def skip_ws_nonws)
  qed
next
  case (2 d b)
  show ?case
  proof (intro allI impI)
    fix f rest assume "length (stringify d (JBool b)) < f"
    then obtain f' where "f = Suc f'" by (cases f) auto
    then show "parse_value f (stringify d (JBool b) @ rest) = Some (JBool b, rest)"
      by (simp add: is_ws_def quote_char_def skip_ws_nonws)
  qed
next
  case (3 d i)
  show ?case
  proof (intro allI impI)
    fix f rest assume len: "length (stringify d (JNum i)) < f"
      and r: "rest = [] \<or> \<not> is_digit (hd rest)"
    then obtain f' where f: "f = Suc f'" by (cases f) auto
    obtain c cs where ci: "show_int i = c # cs" and cd: "c = CHR ''-'' \<or> is_digit c"
      using show_int_first [of i] by blast
    have ns: "\<not> is_ws c \<and> c \<noteq> CHR ''n'' \<and> c \<noteq> CHR ''t'' \<and> c \<noteq> CHR ''f'' \<and> c \<noteq> quote_char
      \<and> c \<noteq> CHR ''['' \<and> c \<noteq> CHR ''{''"
      using cd
    proof
      assume "c = CHR ''-''"
      then show ?thesis by (simp add: is_ws_def quote_char_def skip_ws_nonws)
    next
      assume "is_digit c"
      then show ?thesis using is_digit_not_special [of c] by simp
    qed
    have "parse_number (show_int i @ rest) = Some (JNum i, rest)"
      using r by (rule parse_number_show_int)
    with f ci ns cd show "parse_value f (stringify d (JNum i) @ rest) = Some (JNum i, rest)"
      by (simp add: skip_ws_nonws)
  qed
next
  case (4 d s)
  show ?case
  proof (intro allI impI)
    fix f rest assume "length (stringify d (JStr s)) < f"
    then obtain f' where "f = Suc f'" by (cases f) auto
    then show "parse_value f (stringify d (JStr s) @ rest) = Some (JStr s, rest)"
      by (simp add: quote_def is_ws_def quote_char_def skip_ws_nonws parse_str_body_quote [unfolded quote_char_def])
  qed
next
  case (5 d)
  show ?case
  proof (intro allI impI)
    fix f rest assume "length (stringify d (JArr [])) < f"
    then obtain f' where "f = Suc f'" by (cases f) auto
    then show "parse_value f (stringify d (JArr []) @ rest) = Some (JArr [], rest)"
      by (simp add: is_ws_def quote_char_def skip_ws_nonws)
  qed
next
  case (6 d x xs)
  show ?case
  proof (intro allI impI)
    fix f rest assume len: "length (stringify d (JArr (x # xs))) < f"
    then obtain f' where f: "f = Suc f'" by (cases f) auto
    have wx: "wf_json x" and wxs: "list_all wf_json xs" using "6.prems" by simp_all
    let ?r1 = "stringify_elems (Suc d) xs @ newline # indent d @ CHR '']'' # rest"
    have lx: "length (stringify (Suc d) x) < f'" and lxs: "length (stringify_elems (Suc d) xs) < f'"
      using len f by simp_all
    have r1: "?r1 = [] \<or> \<not> is_digit (hd ?r1)"
      using stringify_elems_first [of "Suc d" xs "indent d @ CHR '']'' # rest"]
      by (cases ?r1) auto
    have px: "parse_value f' (stringify (Suc d) x @ ?r1) = Some (x, ?r1)"
      using "6.IH"(1) [OF wx] lx r1 by blast
    have pxs: "parse_elems f' [x] ?r1 = Some ([x] @ xs, rest)"
      using "6.IH"(2) [OF wxs] lxs by blast
    obtain c s where cs: "stringify (Suc d) x = c # s" and c: "\<not> is_ws c" "c \<noteq> CHR '']''"
      using stringify_first [of "Suc d" x] by blast
    have sk: "skip_ws (newline # indent (Suc d) @ stringify (Suc d) x @ ?r1) = stringify (Suc d) x @ ?r1"
      by (simp only: skip_ws_closer skip_ws_stringify)
    have px': "parse_value f' (newline # indent (Suc d) @ stringify (Suc d) x @ ?r1) = Some (x, ?r1)"
      using px by (simp only: parse_value_closer)
    show "parse_value f (stringify d (JArr (x # xs)) @ rest) = Some (JArr (x # xs), rest)"
      using f sk cs c px' pxs
      by (simp add: is_ws_def quote_char_def skip_ws_nonws parse_value_closer)
  qed
next
  case (7 d)
  show ?case
  proof (intro allI impI)
    fix f rest assume "length (stringify d (JObj [])) < f"
    then obtain f' where "f = Suc f'" by (cases f) auto
    then show "parse_value f (stringify d (JObj []) @ rest) = Some (JObj [], rest)"
      by (simp add: is_ws_def quote_char_def skip_ws_nonws)
  qed
next
  case (8 d k v kvs)
  show ?case
  proof (intro allI impI)
    fix f rest assume len: "length (stringify d (JObj ((k, v) # kvs))) < f"
    then obtain f2 where f: "f = Suc (Suc f2)" by (cases f; cases "f - 1") auto
    have wv: "wf_json v" and wkvs: "list_all (\<lambda>kv. wf_json (snd kv)) kvs"
      and dk: "distinct (map fst ([(k, v)]) @ map fst kvs)" using "8.prems" by auto
    let ?r1 = "stringify_members (Suc d) kvs @ newline # indent d @ CHR ''}'' # rest"
    have lv: "length (stringify (Suc d) v) < f2" and lkvs: "length (stringify_members (Suc d) kvs) < f2"
      using len f by (simp_all add: quote_def)
    have r1: "?r1 = [] \<or> \<not> is_digit (hd ?r1)"
      using stringify_members_first [of "Suc d" kvs "indent d @ CHR ''}'' # rest"]
      by (cases ?r1) auto
    have pv: "parse_value f2 (stringify (Suc d) v @ ?r1) = Some (v, ?r1)"
      using "8.IH"(1) [OF wv] lv r1 by blast
    have pm: "parse_members f2 [(k, v)] ?r1 = Some ([(k, v)] @ kvs, rest)"
      using "8.IH"(2) [OF wkvs] lkvs dk by blast
    have step: "parse_member (Suc f2) [] (newline # indent (Suc d) @ quote k @ CHR '':'' # CHR 0x20 # stringify (Suc d) v @ ?r1)
                  = Some ((k, v) # kvs, rest)"
      using parse_member_step [OF pv, of "[]" k] pm by (simp add: parse_member_closer)
    have sk: "skip_ws (newline # indent (Suc d) @ quote k @ CHR '':'' # CHR 0x20 # stringify (Suc d) v @ ?r1)
                = quote k @ CHR '':'' # CHR 0x20 # stringify (Suc d) v @ ?r1"
      by (simp add: skip_ws_closer quote_def skip_ws_nonws is_ws_def quote_char_def)
    show "parse_value f (stringify d (JObj ((k, v) # kvs)) @ rest) = Some (JObj ((k, v) # kvs), rest)"
      using f step sk
      by (simp add: is_ws_def quote_char_def skip_ws_nonws quote_def)
  qed
next
  case (9 d)
  show ?case
  proof (intro allI impI)
    fix f acc d' rest assume "length (stringify_elems d []) < f"
    then obtain f' where "f = Suc f'" by (cases f) auto
    then show "parse_elems f acc (stringify_elems d [] @ newline # indent d' @ CHR '']'' # rest) = Some (acc @ [], rest)"
      by (simp add: skip_ws_closer skip_ws_nonws is_ws_def)
  qed
next
  case (10 d x xs)
  show ?case
  proof (intro allI impI)
    fix f acc d' rest assume len: "length (stringify_elems d (x # xs)) < f"
    then obtain f' where f: "f = Suc f'" by (cases f) auto
    have wx: "wf_json x" and wxs: "list_all wf_json xs" using "10.prems" by simp_all
    let ?r1 = "stringify_elems d xs @ newline # indent d' @ CHR '']'' # rest"
    have lx: "length (stringify d x) < f'" and lxs: "length (stringify_elems d xs) < f'"
      using len f by simp_all
    have r1: "?r1 = [] \<or> \<not> is_digit (hd ?r1)"
      using stringify_elems_first [of d xs "indent d' @ CHR '']'' # rest"]
      by (cases ?r1) auto
    have px: "parse_value f' (newline # indent d @ stringify d x @ ?r1) = Some (x, ?r1)"
      using "10.IH"(1) [OF wx] lx r1 by (simp only: parse_value_closer)
    have pxs: "parse_elems f' (acc @ [x]) ?r1 = Some ((acc @ [x]) @ xs, rest)"
      using "10.IH"(2) [OF wxs] lxs by blast
    show "parse_elems f acc (stringify_elems d (x # xs) @ newline # indent d' @ CHR '']'' # rest)
            = Some (acc @ x # xs, rest)"
      using f px pxs by (simp add: skip_ws_nonws is_ws_def)
  qed
next
  case (11 d)
  show ?case
  proof (intro allI impI)
    fix f acc d' rest assume "length (stringify_members d []) < f"
    then obtain f' where "f = Suc f'" by (cases f) auto
    then show "parse_members f acc (stringify_members d [] @ newline # indent d' @ CHR ''}'' # rest) = Some (acc @ [], rest)"
      by (simp add: skip_ws_closer skip_ws_nonws is_ws_def)
  qed
next
  case (12 d k v kvs)
  show ?case
  proof (intro allI impI)
    fix f d' rest and acc :: "(string \<times> json) list"
    assume dist: "distinct (map fst acc @ map fst ((k, v) # kvs))"
      and len: "length (stringify_members d ((k, v) # kvs)) < f"
    then obtain f2 where f: "f = Suc (Suc f2)" by (cases f; cases "f - 1") auto
    have wv: "wf_json v" and wkvs: "list_all (\<lambda>kv. wf_json (snd kv)) kvs" using "12.prems" by auto
    have ka: "k \<notin> set (map fst acc)" and dk: "distinct (map fst (acc @ [(k, v)]) @ map fst kvs)"
      using dist by auto
    let ?r1 = "stringify_members d kvs @ newline # indent d' @ CHR ''}'' # rest"
    have lv: "length (stringify d v) < f2" and lkvs: "length (stringify_members d kvs) < f2"
      using len f by (simp_all add: quote_def)
    have r1: "?r1 = [] \<or> \<not> is_digit (hd ?r1)"
      using stringify_members_first [of d kvs "indent d' @ CHR ''}'' # rest"]
      by (cases ?r1) auto
    have pv: "parse_value f2 (stringify d v @ ?r1) = Some (v, ?r1)"
      using "12.IH"(1) [OF wv] lv r1 by blast
    have pm: "parse_members f2 (acc @ [(k, v)]) ?r1 = Some ((acc @ [(k, v)]) @ kvs, rest)"
      using "12.IH"(2) [OF wkvs] lkvs dk by blast
    have step: "parse_member (Suc f2) acc (newline # indent d @ quote k @ CHR '':'' # CHR 0x20 # stringify d v @ ?r1)
                  = Some (acc @ (k, v) # kvs, rest)"
      using parse_member_step [OF pv, of acc k] pm ka by (simp add: parse_member_closer alist_set_absent)
    show "parse_members f acc (stringify_members d ((k, v) # kvs) @ newline # indent d' @ CHR ''}'' # rest)
            = Some (acc @ (k, v) # kvs, rest)"
      using f step by (simp add: skip_ws_nonws is_ws_def)
  qed
qed

declare skip_ws.simps(2) [simp]

lemma parse_wf_fuel:
  "(\<forall>s j r. parse_value f s = Some (j, r) \<longrightarrow> wf_json j) \<and>
   (\<forall>acc s xs r. parse_elems f acc s = Some (xs, r) \<longrightarrow> list_all wf_json acc \<longrightarrow> list_all wf_json xs) \<and>
   (\<forall>acc s kvs r. parse_member f acc s = Some (kvs, r) \<longrightarrow> wf_json (JObj acc) \<longrightarrow> wf_json (JObj kvs)) \<and>
   (\<forall>acc s kvs r. parse_members f acc s = Some (kvs, r) \<longrightarrow> wf_json (JObj acc) \<longrightarrow> wf_json (JObj kvs))"
proof (induction f)
  case 0
  show ?case by simp
next
  case (Suc f)
  then have IHv: "\<And>s j r. parse_value f s = Some (j, r) \<Longrightarrow> wf_json j"
    and IHe: "\<And>acc s xs r. parse_elems f acc s = Some (xs, r) \<Longrightarrow> list_all wf_json acc \<Longrightarrow> list_all wf_json xs"
    and IHm: "\<And>acc s kvs r. parse_member f acc s = Some (kvs, r) \<Longrightarrow> wf_json (JObj acc) \<Longrightarrow> wf_json (JObj kvs)"
    and IHms: "\<And>acc s kvs r. parse_members f acc s = Some (kvs, r) \<Longrightarrow> wf_json (JObj acc) \<Longrightarrow> wf_json (JObj kvs)"
    by blast+
  have V: "parse_value (Suc f) s = Some (j, r) \<Longrightarrow> wf_json j" for s j r
  proof -
    assume a: "parse_value (Suc f) s = Some (j, r)"
    show "wf_json j"
    proof (cases "skip_ws s")
      case (Cons c cs)
      show ?thesis
      proof (cases "c = CHR ''[''")
        case True
        with a Cons have "j = JArr [] \<or> (\<exists>x r' xs t. parse_value f cs = Some (x, r')
            \<and> parse_elems f [x] r' = Some (xs, t) \<and> j = JArr xs)"
          by (auto simp: quote_char_def split: list.splits if_splits option.splits prod.splits)
        then show ?thesis using IHv IHe by fastforce
      next
        case nb: False
        show ?thesis
        proof (cases "c = CHR ''{''")
          case True
          with a Cons have "j = JObj [] \<or> (\<exists>kvs t. parse_member f [] cs = Some (kvs, t) \<and> j = JObj kvs)"
            by (auto simp: quote_char_def split: list.splits if_splits option.splits prod.splits)
          then show ?thesis using IHm [of "[]"] by fastforce
        next
          case False
          with nb a Cons show ?thesis
            by (auto simp: parse_number_def split: list.splits if_splits option.splits prod.splits)
        qed
      qed
    qed (use a in simp)
  qed
  have E: "parse_elems (Suc f) acc s = Some (xs, r) \<Longrightarrow> list_all wf_json acc \<Longrightarrow> list_all wf_json xs"
    for acc s xs r
    by (auto split: list.splits if_splits option.splits prod.splits dest!: IHe intro: IHv)
  have M: "parse_member (Suc f) acc s = Some (kvs, r) \<Longrightarrow> wf_json (JObj acc) \<Longrightarrow> wf_json (JObj kvs)"
    for acc s kvs r
  proof -
    assume a: "parse_member (Suc f) acc s = Some (kvs, r)" and w: "wf_json (JObj acc)"
    from a obtain k v r3 where pv: "\<exists>r2. parse_value f r2 = Some (v, r3)"
      and pm: "parse_members f (alist_set k v acc) r3 = Some (kvs, r)"
      by (auto split: list.splits if_splits option.splits prod.splits)
    from pv have "wf_json v" using IHv by blast
    with w have "wf_json (JObj (alist_set k v acc))" by (rule wf_json_alist_set)
    with pm show ?thesis by (rule IHms)
  qed
  have MS: "parse_members (Suc f) acc s = Some (kvs, r) \<Longrightarrow> wf_json (JObj acc) \<Longrightarrow> wf_json (JObj kvs)"
    for acc s kvs r
    by (auto split: list.splits if_splits dest: IHm)
  show ?case using V E M MS by blast
qed

lemma parse_json_wf: "parse_json s = Inr j \<Longrightarrow> wf_json j"
proof -
  assume a: "parse_json s = Inr j"
  then obtain r where "parse_value (Suc (length s)) s = Some (j, r)"
    by (auto simp: parse_json_def split: option.splits if_splits)
  then show ?thesis using parse_wf_fuel [of "Suc (length s)"] by blast
qed

subsection \<open>The roundtrip\<close>

text \<open>Serialising a well-formed document (pairwise distinct keys in every object, as
  every parsed document has) and parsing the text back gives the same document, so
  \<open>updateJson\<close> hands each callback exactly the document the previous write stored;
  the fuel \<open>parse_json\<close> gives the parser (the text's length plus one) is enough.
\<close>

theorem parse_serialize_json:
  "wf_json j \<Longrightarrow> parse_json (serialize_json j) = Inr j"
proof -
  assume wf: "wf_json j"
  let ?s = "stringify 0 j"
  have "parse_value (Suc (length ?s)) (?s @ []) = Some (j, [])"
    using parse_stringify(1) [OF wf] by blast
  then show ?thesis by (simp add: parse_json_def serialize_json_def)
qed

theorem parse_serialize_json_witness:
  "wf_json (JObj [(''references'', JArr [JObj [(''path'', JStr ''./tsconfig.spec.json'')]])])
   \<and> parse_json (serialize_json (JObj [(''references'', JArr [JObj [(''path'', JStr ''./tsconfig.spec.json'')]])]))
     = Inr (JObj [(''references'', JArr [JObj [(''path'', JStr ''./tsconfig.spec.json'')]])])"
  using parse_serialize_json [of "JObj [(''references'', JArr [JObj [(''path'', JStr ''./tsconfig.spec.json'')]])]"]
  by simp

end
