(* ===== verification/Paths.thy ===== *)
theory Paths
  imports Prelude
begin

text \<open>
  The devkit's path helpers the generator calls, modelled from their documented
  behaviour (their code is not in the sources):
  \<^item> \<open>joinPathFragments(...fragments)\<close>: \<open>path.join\<close> followed by
    \<open>normalizePath\<close>: backslashes become slashes, the fragments are joined with
    \<open>/\<close>, empty and \<open>.\<close> segments are dropped, \<open>..\<close> removes the segment
    before it, and an empty result is \<open>.\<close>. Paths are relative to the workspace
    root, as project roots are; a leading \<open>/\<close> is not kept.
  \<^item> \<open>offsetFromRoot(dir)\<close>: one \<open>../\<close> per non-empty segment of the
    normalised directory.
\<close>

fun split_slash :: "string \<Rightarrow> string list" where
  "split_slash [] = [[]]"
| "split_slash (c # cs) =
     (if c = CHR ''/'' then [] # split_slash cs
      else (let r = split_slash cs in (c # hd r) # tl r))"

fun join_segs :: "string list \<Rightarrow> string" where
  "join_segs [] = []"
| "join_segs [s] = s"
| "join_segs (s # ss) = s @ CHR ''/'' # join_segs ss"

text \<open>The segment stack of \<open>path.normalize\<close>, kept reversed in \<open>acc\<close>.\<close>

fun norm_acc :: "string list \<Rightarrow> string list \<Rightarrow> string list" where
  "norm_acc acc [] = rev acc"
| "norm_acc acc (s # ss) =
     (if s = [] \<or> s = ''.'' then norm_acc acc ss
      else if s = ''..'' then
        (case acc of
           [] \<Rightarrow> norm_acc [s] ss
         | t # acc' \<Rightarrow> if t = ''..'' then norm_acc (s # acc) ss else norm_acc acc' ss)
      else norm_acc (s # acc) ss)"

definition to_slashes :: "string \<Rightarrow> string" where
  "to_slashes p = map (\<lambda>c. if c = CHR 0x5C then CHR ''/'' else c) p"

definition normalize_path :: "string \<Rightarrow> string" where
  "normalize_path p =
     (let segs = norm_acc [] (split_slash (to_slashes p)) in if segs = [] then ''.'' else join_segs segs)"

definition join_path_fragments :: "string list \<Rightarrow> string" where
  "join_path_fragments fs = normalize_path (join_segs fs)"

definition offset_from_root :: "string \<Rightarrow> string" where
  "offset_from_root dir =
     concat (replicate (length (filter (\<lambda>s. s \<noteq> []) (split_slash (normalize_path dir)))) ''../'')"

text \<open>A file name: one segment, neither \<open>.\<close> nor \<open>..\<close>, without separators.\<close>

definition plain_name :: "string \<Rightarrow> bool" where
  "plain_name a \<longleftrightarrow> a \<noteq> [] \<and> a \<noteq> ''.'' \<and> a \<noteq> ''..'' \<and> CHR ''/'' \<notin> set a \<and> CHR 0x5C \<notin> set a"

subsection \<open>Lemmas\<close>

lemma split_slash_nonempty: "split_slash s \<noteq> []"
  by (induction s) (auto simp: Let_def)

lemma split_slash_append_slash:
  "split_slash (xs @ CHR ''/'' # ys) = split_slash xs @ split_slash ys"
proof (induction xs)
  case (Cons c cs)
  then show ?case
    by (cases "split_slash cs") (auto simp: Let_def split_slash_nonempty)
qed simp

lemma split_slash_plain: "CHR ''/'' \<notin> set a \<Longrightarrow> split_slash a = [a]"
  by (induction a) (auto simp: Let_def)

lemma norm_acc_snoc_plain:
  "plain_name a \<Longrightarrow> norm_acc acc (ss @ [a]) = norm_acc acc ss @ [a]"
proof (induction acc ss rule: norm_acc.induct)
  case (1 acc)
  then show ?case by (simp add: plain_name_def)
next
  case (2 acc s ss)
  then show ?case by (auto split: list.splits)
qed

lemma join_segs_snoc:
  "segs \<noteq> [] \<Longrightarrow> join_segs (segs @ [a]) = join_segs segs @ CHR ''/'' # a"
  by (induction segs rule: join_segs.induct) auto

lemma to_slashes_append: "to_slashes (xs @ ys) = to_slashes xs @ to_slashes ys"
  by (simp add: to_slashes_def)

lemma to_slashes_plain: "plain_name a \<Longrightarrow> to_slashes a = a"
  by (auto simp: to_slashes_def plain_name_def intro: map_idI)

text \<open>Joining a directory and a file name: the normalised directory, then the name.\<close>

lemma join_path_fragments_file:
  assumes "plain_name a"
  shows "join_path_fragments [root, a] =
           (let segs = norm_acc [] (split_slash (to_slashes root))
            in if segs = [] then a else join_segs segs @ CHR ''/'' # a)"
proof -
  have t: "to_slashes (root @ CHR ''/'' # a) = to_slashes root @ CHR ''/'' # a"
    using to_slashes_plain [OF assms] by (simp add: to_slashes_def)
  have "split_slash (to_slashes (root @ CHR ''/'' # a)) = split_slash (to_slashes root) @ [a]"
    using assms by (simp add: t split_slash_append_slash split_slash_plain plain_name_def)
  with assms show ?thesis
    by (simp add: join_path_fragments_def normalize_path_def Let_def norm_acc_snoc_plain join_segs_snoc)
qed

lemma join_path_fragments_inj:
  assumes "plain_name a" and "plain_name b" and "a \<noteq> b"
  shows "join_path_fragments [root, a] \<noteq> join_path_fragments [root, b]"
  using assms by (simp add: join_path_fragments_file Let_def)

lemma split_slash_join_segs:
  "list_all plain_name segs \<Longrightarrow> segs \<noteq> [] \<Longrightarrow> split_slash (join_segs segs) = segs"
proof (induction segs rule: join_segs.induct)
  case (2 s)
  then show ?case by (simp add: split_slash_plain plain_name_def)
next
  case (3 s s' ss)
  then show ?case by (simp add: split_slash_append_slash split_slash_plain plain_name_def)
qed simp

lemma norm_acc_plain: "list_all plain_name segs \<Longrightarrow> norm_acc acc segs = rev acc @ segs"
  by (induction segs arbitrary: acc) (auto simp: plain_name_def)

lemma to_slashes_Nil: "to_slashes [] = []"
  by (simp add: to_slashes_def)

lemma to_slashes_Cons: "to_slashes (c # s) = (if c = CHR 0x5C then CHR ''/'' else c) # to_slashes s"
  by (simp add: to_slashes_def)

lemma to_slashes_join_segs: "list_all plain_name segs \<Longrightarrow> to_slashes (join_segs segs) = join_segs segs"
  by (induction segs rule: join_segs.induct) (simp_all add: to_slashes_append to_slashes_plain to_slashes_Cons to_slashes_Nil)

lemma normalize_join_segs:
  "list_all plain_name segs \<Longrightarrow> segs \<noteq> [] \<Longrightarrow> normalize_path (join_segs segs) = join_segs segs"
  by (simp add: normalize_path_def to_slashes_join_segs split_slash_join_segs norm_acc_plain)

subsection \<open>Properties\<close>

text \<open>For a project root made of plain directory names, offsetFromRoot gives one ../ per directory, the relative path from the project back to the workspace root that the templates use\<close>

theorem offset_from_root_segments:
  assumes "list_all plain_name segs" and "segs \<noteq> []"
  shows "offset_from_root (join_segs segs) = concat (replicate (length segs) ''../'')"
proof -
  have "filter (\<lambda>s. s \<noteq> []) segs = segs"
    using assms(1) by (auto simp: plain_name_def list_all_iff intro: filter_True)
  with assms show ?thesis
    by (simp add: offset_from_root_def normalize_join_segs split_slash_join_segs)
qed

theorem offset_from_root_segments_witness:
  "list_all plain_name [''libs'', ''my-lib''] \<and> [''libs'', ''my-lib''] \<noteq> []
   \<and> offset_from_root ''libs/my-lib'' = ''../../''"
proof -
  have p: "list_all plain_name [''libs'', ''my-lib'']" by (simp add: plain_name_def)
  show ?thesis using offset_from_root_segments [OF p] p by simp
qed

end
