(* ===== verification/Tree.thy ===== *)
theory Tree
  imports Json_Codec Paths
begin

text \<open>
  The devkit's virtual file system (\<open>Tree\<close>) as the generator uses it, modelled from
  the spec's host interface (\<open>read\<close>, \<open>exists\<close>, write) and from the devkit's
  \<open>updateJson\<close>, \<open>readJson\<close> and \<open>readProjectConfiguration\<close>:
  \<^item> the workspace state is a record of the files (path to text) and the project
    configurations (project name to root and targets);
  \<^item> \<open>update_json p f\<close> reads \<open>p\<close> (a missing file is an error), parses it (a
    parse error is an error), runs the callback \<open>f\<close> (whose exception propagates)
    and writes the serialised result back to \<open>p\<close>: the edit is one write, done
    only when every step before it succeeded;
  \<^item> paths are the strings \<open>joinPathFragments\<close> returns, already normalised.
\<close>

type_synonym js_object = "(string \<times> json) list"

record project_config =
  proj_root :: string
  proj_targets :: js_object

record workspace =
  files :: "string \<rightharpoonup> string"
  projects :: "string \<rightharpoonup> project_config"

definition tree_exists :: "workspace \<Rightarrow> string \<Rightarrow> bool" where
  "tree_exists ws p \<longleftrightarrow> files ws p \<noteq> None"

definition tree_write :: "string \<Rightarrow> string \<Rightarrow> workspace \<Rightarrow> workspace" where
  "tree_write p txt ws = ws\<lparr>files := (files ws)(p \<mapsto> txt)\<rparr>"

definition read_json :: "workspace \<Rightarrow> string \<Rightarrow> json result" where
  "read_json ws p =
     (case files ws p of
        None \<Rightarrow> Inl (FileNotFound p)
      | Some txt \<Rightarrow> parse_json txt)"

definition update_json :: "string \<Rightarrow> (json \<Rightarrow> json result) \<Rightarrow> workspace \<Rightarrow> workspace result" where
  "update_json p f ws =
     bind_res (read_json ws p) (\<lambda>j.
     bind_res (f j) (\<lambda>j'.
     Inr (tree_write p (serialize_json j') ws)))"

definition read_project_configuration :: "workspace \<Rightarrow> string \<Rightarrow> project_config result" where
  "read_project_configuration ws name =
     (case projects ws name of
        None \<Rightarrow> Inl (ProjectNotFound name)
      | Some pc \<Rightarrow> Inr pc)"

subsection \<open>Lemmas\<close>

lemma update_json_Inr_iff:
  "update_json p f ws = Inr ws' \<longleftrightarrow>
     (\<exists>j j'. read_json ws p = Inr j \<and> f j = Inr j' \<and> ws' = tree_write p (serialize_json j') ws)"
  by (auto simp: update_json_def bind_res_eq_Inr)

lemma files_tree_write [simp]: "files (tree_write p txt ws) = (files ws)(p \<mapsto> txt)"
  by (simp add: tree_write_def)

lemma projects_tree_write [simp]: "projects (tree_write p txt ws) = projects ws"
  by (simp add: tree_write_def)

lemma tree_write_same [simp]: "tree_write p t (tree_write p t' ws) = tree_write p t ws"
  by (simp add: tree_write_def)

lemma read_json_wf: "read_json ws p = Inr j \<Longrightarrow> wf_json j"
  by (auto simp: read_json_def split: option.splits intro: parse_json_wf)

lemma read_json_tree_write:
  "wf_json j \<Longrightarrow> read_json (tree_write p (serialize_json j) ws) p = Inr j"
  by (simp add: read_json_def parse_serialize_json)

lemma read_json_tree_write_other:
  "q \<noteq> p \<Longrightarrow> read_json (tree_write p txt ws) q = read_json ws q"
  by (simp add: read_json_def)

lemma tree_exists_tree_write:
  "tree_exists (tree_write p txt ws) q \<longleftrightarrow> q = p \<or> tree_exists ws q"
  by (simp add: tree_exists_def)

text \<open>
  An update whose callback keeps well-formed documents well-formed: afterwards the
  file holds the callback's result, and reading it again gives that result.
\<close>

lemma update_json_read_back:
  assumes "update_json p f ws = Inr ws'"
    and "\<And>j j'. wf_json j \<Longrightarrow> f j = Inr j' \<Longrightarrow> wf_json j'"
  shows "\<exists>j j'. read_json ws p = Inr j \<and> f j = Inr j' \<and> read_json ws' p = Inr j'"
proof -
  from assms(1) obtain j j' where r: "read_json ws p = Inr j" and fj: "f j = Inr j'"
    and ws': "ws' = tree_write p (serialize_json j') ws"
    by (auto simp: update_json_Inr_iff)
  from r have "wf_json j" by (rule read_json_wf)
  with fj assms(2) have "wf_json j'" by blast
  with r fj ws' show ?thesis by (auto simp: read_json_tree_write)
qed

end
