(* ===== verification/Tsconfig_Edits.thy ===== *)
theory Tsconfig_Edits
  imports Json
begin

text \<open>
  The two document edits of \<open>updateTsConfig\<close> in
  \<open>src/packages/vite/src/generators/vitest/vitest-generator.ts\<close>, as functions from
  the parsed document to the edited one or the exception the callback throws:
  \<^item> \<open>add_spec_reference\<close>, the callback passed to \<open>updateJson\<close> for
    \<open>tsconfig.json\<close> (lines 58--68): append \<open>{path: './tsconfig.spec.json'}\<close> to
    \<open>references\<close> unless an entry with that path is already there;
  \<^item> \<open>add_vitest_types\<close>, the callback for \<open>tsconfig.lib.json\<close> or
    \<open>tsconfig.app.json\<close> (lines 77--80 and 86--89):
    \<open>(json.compilerOptions.types ??= []).push('vitest/importMeta')\<close>.
  The callbacks mutate the parsed object and return it; since a parsed document shares
  no sub-object, the mutation is the same as writing the changed array back under its
  key, which is how the model builds the result.
\<close>

definition spec_tsconfig_path :: string where
  "spec_tsconfig_path = ''./tsconfig.spec.json''"

definition vitest_import_meta :: string where
  "vitest_import_meta = ''vitest/importMeta''"

text \<open>The entry that line 63 pushes.\<close>

definition spec_reference :: json where
  "spec_reference = JObj [(''path'', JStr spec_tsconfig_path)]"

text \<open>The callback of \<open>some\<close> on line 61: \<open>(r) => r.path === './tsconfig.spec.json'\<close>.\<close>

definition is_spec_reference :: "json \<Rightarrow> bool result" where
  "is_spec_reference r =
     bind_res (get_prop (Some r) ''path'') (\<lambda>p. Inr (p = Some (JStr spec_tsconfig_path)))"

definition add_spec_reference :: "json \<Rightarrow> json result" where
  "add_spec_reference json =
     bind_res (get_prop (Some json) ''references'') (\<lambda>refs.
       if truthy refs then
         bind_res (array_some refs is_spec_reference) (\<lambda>found.
           if found then Inr json
           else bind_res (array_push refs spec_reference) (\<lambda>refs'.
                  assign_prop (Some json) ''references'' refs'))
       else Inr json)"

definition add_vitest_types :: "json \<Rightarrow> json result" where
  "add_vitest_types json =
     bind_res (get_prop (Some json) ''compilerOptions'') (\<lambda>co.
     bind_res (get_prop co ''types'') (\<lambda>types.
     bind_res
       (if nullish types then assign_prop co ''types'' (JArr [JStr vitest_import_meta])
        else bind_res (array_push types (JStr vitest_import_meta)) (\<lambda>types'.
               assign_prop co ''types'' types'))
       (\<lambda>co'. assign_prop (Some json) ''compilerOptions'' co')))"

subsection \<open>Observers used to state the properties\<close>

text \<open>The \<open>path\<close> of a reference entry, as the callback reads it (not null).\<close>

fun ref_path :: "json \<Rightarrow> json option" where
  "ref_path (JObj kvs) = map_of kvs ''path''"
| "ref_path _ = None"

definition is_spec_path :: "json \<Rightarrow> bool" where
  "is_spec_path r \<longleftrightarrow> ref_path r = Some (JStr spec_tsconfig_path)"

definition count_spec_refs :: "json list \<Rightarrow> nat" where
  "count_spec_refs rs = length (filter is_spec_path rs)"

text \<open>\<open>compilerOptions.types\<close> of a document, when it is an array.\<close>

fun compiler_types :: "json \<Rightarrow> json list option" where
  "compiler_types (JObj kvs) =
     (case map_of kvs ''compilerOptions'' of
        Some (JObj co) \<Rightarrow> (case map_of co ''types'' of Some (JArr ts) \<Rightarrow> Some ts | _ \<Rightarrow> None)
      | _ \<Rightarrow> None)"
| "compiler_types _ = None"

definition old_types :: "(string \<times> json) list \<Rightarrow> json list" where
  "old_types co = (case map_of co ''types'' of Some (JArr ts) \<Rightarrow> ts | _ \<Rightarrow> [])"

subsection \<open>Characteristic equations\<close>

lemma is_spec_reference_eq:
  "is_spec_reference r =
     (if r = JNull then Inl (TypeError ''Cannot read properties of null (reading path)'')
      else Inr (is_spec_path r))"
  by (cases r) (simp_all add: is_spec_reference_def is_spec_path_def)

lemma js_some_spec_reference:
  "JNull \<notin> set rs \<Longrightarrow> js_some is_spec_reference rs = Inr (list_ex is_spec_path rs)"
  by (induction rs) (auto simp: is_spec_reference_eq)

lemma spec_reference_is_spec_path [simp]: "is_spec_path spec_reference"
  by (simp add: is_spec_path_def spec_reference_def)

lemma js_some_spec_reference_appended:
  "js_some is_spec_reference rs = Inr False \<Longrightarrow>
   js_some is_spec_reference (rs @ [spec_reference]) = Inr True"
  by (simp add: js_some_append_False is_spec_reference_eq spec_reference_def is_spec_path_def)

lemma add_spec_reference_JObj:
  "add_spec_reference (JObj kvs) =
     (case map_of kvs ''references'' of
        Some (JArr rs) \<Rightarrow>
          bind_res (js_some is_spec_reference rs) (\<lambda>found.
            if found then Inr (JObj kvs)
            else Inr (JObj (alist_set ''references'' (JArr (rs @ [spec_reference])) kvs)))
      | r \<Rightarrow> if truthy r then Inl (TypeError ''some is not a function'') else Inr (JObj kvs))"
proof (cases "map_of kvs ''references''")
  case None
  then show ?thesis by (simp add: add_spec_reference_def)
next
  case (Some r)
  then show ?thesis
    by (cases r) (simp_all add: add_spec_reference_def cong: if_cong)
qed

lemma add_spec_reference_not_JObj:
  "\<forall>kvs. j \<noteq> JObj kvs \<Longrightarrow>
   add_spec_reference j =
     (if j = JNull then Inl (TypeError ''Cannot read properties of null (reading references)'')
      else Inr j)"
  by (cases j) (simp_all add: add_spec_reference_def)

lemma add_vitest_types_JObj_JObj:
  "map_of kvs ''compilerOptions'' = Some (JObj co) \<Longrightarrow>
   add_vitest_types (JObj kvs) =
     (case map_of co ''types'' of
        None \<Rightarrow> Inr (JObj (alist_set ''compilerOptions''
                   (JObj (alist_set ''types'' (JArr [JStr vitest_import_meta]) co)) kvs))
      | Some JNull \<Rightarrow> Inr (JObj (alist_set ''compilerOptions''
                   (JObj (alist_set ''types'' (JArr [JStr vitest_import_meta]) co)) kvs))
      | Some (JArr ts) \<Rightarrow> Inr (JObj (alist_set ''compilerOptions''
                   (JObj (alist_set ''types'' (JArr (ts @ [JStr vitest_import_meta])) co)) kvs))
      | Some _ \<Rightarrow> Inl (TypeError ''push is not a function''))"
  by (auto simp: add_vitest_types_def split: option.split json.split)

lemmas edit_simps = add_spec_reference_JObj add_vitest_types_JObj_JObj
  is_spec_reference_eq js_some_spec_reference

subsection \<open>Helper lemmas\<close>

lemma js_some_spec_count:
  "js_some is_spec_reference rs = Inr b \<Longrightarrow> b = (0 < count_spec_refs rs)"
proof (cases b)
  case True
  then show "js_some is_spec_reference rs = Inr b \<Longrightarrow> ?thesis"
    by (auto simp: count_spec_refs_def filter_empty_conv is_spec_reference_eq
             dest!: js_some_True split: if_splits)
next
  case False
  then show "js_some is_spec_reference rs = Inr b \<Longrightarrow> ?thesis"
    by (auto simp: count_spec_refs_def filter_empty_conv is_spec_reference_eq
             dest!: js_some_False split: if_splits)
qed

lemma add_spec_reference_Inr_cases:
  assumes "add_spec_reference (JObj kvs) = Inr j'"
  obtains (unchanged) "j' = JObj kvs"
  | (appended) rs where "map_of kvs ''references'' = Some (JArr rs)"
      "js_some is_spec_reference rs = Inr False"
      "j' = JObj (alist_set ''references'' (JArr (rs @ [spec_reference])) kvs)"
proof (cases "map_of kvs ''references''")
  case None
  with assms that show ?thesis by (simp add: add_spec_reference_JObj)
next
  case (Some r)
  show ?thesis
  proof (cases "\<exists>rs. r = JArr rs")
    case False
    with Some assms that show ?thesis
      by (cases r) (auto simp: add_spec_reference_JObj split: if_splits)
  next
    case True
    then obtain rs where r: "r = JArr rs" by blast
    with Some assms that show ?thesis
      by (cases "js_some is_spec_reference rs") (auto simp: add_spec_reference_JObj split: if_splits)
  qed
qed

lemma add_spec_reference_idem:
  assumes "add_spec_reference j = Inr j'"
  shows "add_spec_reference j' = Inr j'"
proof (cases "\<exists>kvs. j = JObj kvs")
  case False
  with assms show ?thesis by (auto simp: add_spec_reference_not_JObj split: if_splits)
next
  case True
  then obtain kvs where j: "j = JObj kvs" by blast
  from assms [unfolded j] show ?thesis
  proof (cases rule: add_spec_reference_Inr_cases)
    case unchanged
    with assms j show ?thesis by simp
  next
    case (appended rs)
    then show ?thesis
      by (simp add: add_spec_reference_JObj js_some_spec_reference_appended)
  qed
qed

lemma add_vitest_types_Inr_cases:
  assumes "add_vitest_types (JObj kvs) = Inr j'"
  obtains (unchanged) "j' = JObj kvs"
  | (edited) co ts where "map_of kvs ''compilerOptions'' = Some (JObj co)"
      "j' = JObj (alist_set ''compilerOptions'' (JObj (alist_set ''types'' (JArr ts) co)) kvs)"
      "ts = old_types co @ [JStr vitest_import_meta]"
proof (cases "map_of kvs ''compilerOptions''")
  case None
  with assms show ?thesis by (simp add: add_vitest_types_def)
next
  case (Some c)
  show ?thesis
  proof (cases c)
    case (JObj co)
    with Some assms that show ?thesis
      by (auto simp: add_vitest_types_JObj_JObj old_types_def split: option.splits json.splits)
  qed (use Some assms that in \<open>auto simp: add_vitest_types_def alist_set_same\<close>)
qed

lemma add_vitest_types_not_JObj:
  "\<forall>kvs. j \<noteq> JObj kvs \<Longrightarrow> \<exists>e. add_vitest_types j = Inl e"
  by (cases j) (simp_all add: add_vitest_types_def)

lemma wf_old_types:
  "wf_json (JObj co) \<Longrightarrow> list_all wf_json (old_types co)"
proof (cases "map_of co ''types''")
  case (Some t)
  then show "wf_json (JObj co) \<Longrightarrow> ?thesis"
    using wf_json_map_of [of co "''types''" t]
    by (cases t) (simp_all add: old_types_def)
qed (simp add: old_types_def)

lemma add_spec_reference_wf:
  assumes "wf_json j" and "add_spec_reference j = Inr j'"
  shows "wf_json j'"
proof (cases "\<exists>kvs. j = JObj kvs")
  case False
  with assms show ?thesis by (auto simp: add_spec_reference_not_JObj split: if_splits)
next
  case True
  then obtain kvs where j: "j = JObj kvs" by blast
  from assms(2) [unfolded j] show ?thesis
  proof (cases rule: add_spec_reference_Inr_cases)
    case unchanged
    with assms(1) j show ?thesis by simp
  next
    case (appended rs)
    from assms(1) j have wk: "wf_json (JObj kvs)" by simp
    with appended have "wf_json (JArr rs)" by (blast dest: wf_json_map_of)
    then have "wf_json (JArr (rs @ [spec_reference]))" by (simp add: spec_reference_def)
    with wk have "wf_json (JObj (alist_set ''references'' (JArr (rs @ [spec_reference])) kvs))"
      by (rule wf_json_alist_set)
    with appended show ?thesis by (simp only:)
  qed
qed

lemma add_vitest_types_wf:
  assumes "wf_json j" and "add_vitest_types j = Inr j'"
  shows "wf_json j'"
proof (cases "\<exists>kvs. j = JObj kvs")
  case False
  then obtain e where "add_vitest_types j = Inl e" using add_vitest_types_not_JObj by blast
  with assms(2) show ?thesis by simp
next
  case True
  then obtain kvs where j: "j = JObj kvs" by blast
  from assms(2) [unfolded j] show ?thesis
  proof (cases rule: add_vitest_types_Inr_cases)
    case unchanged
    with assms(1) j show ?thesis by simp
  next
    case (edited co ts)
    from assms(1) j have wk: "wf_json (JObj kvs)" by simp
    with edited have wco: "wf_json (JObj co)" by (blast dest: wf_json_map_of)
    then have "wf_json (JArr ts)" using edited(3) by (simp add: wf_old_types)
    with wco have "wf_json (JObj (alist_set ''types'' (JArr ts) co))"
      by (rule wf_json_alist_set)
    with wk have "wf_json (JObj (alist_set ''compilerOptions'' (JObj (alist_set ''types'' (JArr ts) co)) kvs))"
      by (rule wf_json_alist_set)
    with edited show ?thesis by (simp only:)
  qed
qed

subsection \<open>Properties of the two edits\<close>

text \<open>C1: the reference edit of tsconfig.json is idempotent: running the callback on its own result gives that result again, and an error stays the same error\<close>

theorem add_spec_reference_idempotent:
  "bind_res (add_spec_reference j) add_spec_reference = add_spec_reference j"
  by (cases "add_spec_reference j") (simp_all add: add_spec_reference_idem)

text \<open>C2: when references is an array without null entries, the callback appends one entry with path ./tsconfig.spec.json at the end, keeping the existing entries in order, unless an entry with that path is already there, in which case the document is unchanged\<close>

theorem add_spec_reference_appends:
  assumes "map_of kvs ''references'' = Some (JArr rs)" and "JNull \<notin> set rs"
  shows "add_spec_reference (JObj kvs) =
           Inr (if list_ex is_spec_path rs then JObj kvs
                else JObj (alist_set ''references'' (JArr (rs @ [spec_reference])) kvs))"
  using assms by (simp add: add_spec_reference_JObj js_some_spec_reference)

theorem add_spec_reference_appends_witness:
  "map_of [(''references'', JArr [])] ''references'' = Some (JArr []) \<and> JNull \<notin> set []
   \<and> add_spec_reference (JObj [(''references'', JArr [])]) =
       Inr (JObj [(''references'', JArr [JObj [(''path'', JStr ''./tsconfig.spec.json'')]])])"
  using add_spec_reference_appends [of "[(''references'', JArr [])]" "[]"]
  by (simp add: spec_reference_def spec_tsconfig_path_def)

text \<open>C12: when references is absent or falsy (null, false, 0, the empty string) the callback returns the document unchanged\<close>

theorem add_spec_reference_falsy_noop:
  "\<not> truthy (map_of kvs ''references'') \<Longrightarrow> add_spec_reference (JObj kvs) = Inr (JObj kvs)"
proof (cases "map_of kvs ''references''")
  case (Some r)
  then show "\<not> truthy (map_of kvs ''references'') \<Longrightarrow> ?thesis"
    by (cases r) (simp_all add: add_spec_reference_JObj)
qed (simp add: add_spec_reference_JObj)

theorem add_spec_reference_falsy_noop_witness:
  "\<not> truthy (map_of [(''references'', JStr [])] ''references'')
   \<and> add_spec_reference (JObj [(''references'', JStr [])]) = Inr (JObj [(''references'', JStr [])])"
  using add_spec_reference_falsy_noop [of "[(''references'', JStr [])]"] by simp

text \<open>C11: after a successful edit the references array holds at least one entry for ./tsconfig.spec.json, and no more than before when one was there: an array with no duplicate spec entry keeps none\<close>

theorem add_spec_reference_count:
  assumes "add_spec_reference (JObj kvs) = Inr j'" and "map_of kvs ''references'' = Some (JArr rs)"
  shows "\<exists>kvs' rs'. j' = JObj kvs' \<and> map_of kvs' ''references'' = Some (JArr rs') \<and>
           count_spec_refs rs' = max 1 (count_spec_refs rs)"
  using assms(1)
proof (cases rule: add_spec_reference_Inr_cases)
  case unchanged
  from assms obtain b where b: "js_some is_spec_reference rs = Inr b"
    by (cases "js_some is_spec_reference rs") (auto simp: add_spec_reference_JObj)
  have "b"
  proof (rule ccontr)
    assume "\<not> b"
    with b assms unchanged
    have "alist_set ''references'' (JArr (rs @ [spec_reference])) kvs = kvs"
      by (simp add: add_spec_reference_JObj)
    then have "map_of (alist_set ''references'' (JArr (rs @ [spec_reference])) kvs) ''references''
               = map_of kvs ''references''" by simp
    with assms(2) show False by simp
  qed
  with b have "0 < count_spec_refs rs" using js_some_spec_count by blast
  with unchanged assms(2) show ?thesis by auto
next
  case (appended rs')
  with assms(2) have "count_spec_refs rs = 0" using js_some_spec_count by fastforce
  with appended assms(2) show ?thesis by (simp add: count_spec_refs_def)
qed

theorem add_spec_reference_count_witness:
  "add_spec_reference (JObj [(''references'', JArr [spec_reference])])
     = Inr (JObj [(''references'', JArr [spec_reference])])
   \<and> map_of [(''references'', JArr [spec_reference])] ''references'' = Some (JArr [spec_reference])
   \<and> (\<exists>kvs' rs'. JObj [(''references'', JArr [spec_reference])] = JObj kvs'
        \<and> map_of kvs' ''references'' = Some (JArr rs')
        \<and> count_spec_refs rs' = max 1 (count_spec_refs [spec_reference]))"
proof -
  have e: "add_spec_reference (JObj [(''references'', JArr [spec_reference])])
             = Inr (JObj [(''references'', JArr [spec_reference])])"
    by (simp add: add_spec_reference_def spec_reference_def is_spec_reference_def)
  show ?thesis
    using e add_spec_reference_count [OF e, of "[spec_reference]"] by simp
qed

text \<open>C13: the reference edit changes no key of the document but references, and keeps the key order\<close>

theorem add_spec_reference_frame:
  assumes "add_spec_reference (JObj kvs) = Inr j'"
  shows "\<exists>kvs'. j' = JObj kvs' \<and> map fst kvs' = map fst kvs \<and>
           (\<forall>k. k \<noteq> ''references'' \<longrightarrow> map_of kvs' k = map_of kvs k)"
  using assms
proof (cases rule: add_spec_reference_Inr_cases)
  case unchanged
  then show ?thesis by simp
next
  case (appended rs)
  then have "''references'' \<in> set (map fst kvs)"
    by (force dest: map_of_SomeD)
  with appended show ?thesis by (simp add: keys_alist_set)
qed

theorem add_spec_reference_frame_witness:
  "add_spec_reference (JObj [(''references'', JArr []), (''files'', JArr [])]) =
     Inr (JObj [(''references'', JArr [spec_reference]), (''files'', JArr [])])
   \<and> (\<exists>kvs'. JObj [(''references'', JArr [spec_reference]), (''files'', JArr [])] = JObj kvs'
        \<and> map fst kvs' = [''references'', ''files'']
        \<and> (\<forall>k. k \<noteq> ''references'' \<longrightarrow>
               map_of kvs' k = map_of [(''references'', JArr []), (''files'', JArr [])] k))"
proof -
  have e: "add_spec_reference (JObj [(''references'', JArr []), (''files'', JArr [])]) =
             Inr (JObj [(''references'', JArr [spec_reference]), (''files'', JArr [])])"
    by (simp add: add_spec_reference_def)
  show ?thesis using e add_spec_reference_frame [OF e] by simp
qed

text \<open>C23: a truthy references value that is not an array (a non-empty string, a non-zero number, true, an object) makes the callback throw a TypeError, since it has no some method\<close>

theorem add_spec_reference_not_array:
  "truthy (map_of kvs ''references'') \<Longrightarrow> \<forall>rs. map_of kvs ''references'' \<noteq> Some (JArr rs) \<Longrightarrow>
   add_spec_reference (JObj kvs) = Inl (TypeError ''some is not a function'')"
proof (cases "map_of kvs ''references''")
  case (Some r)
  then show "truthy (map_of kvs ''references'') \<Longrightarrow> \<forall>rs. map_of kvs ''references'' \<noteq> Some (JArr rs) \<Longrightarrow> ?thesis"
    by (cases r) (simp_all add: add_spec_reference_JObj)
qed simp

theorem add_spec_reference_not_array_witness:
  "truthy (map_of [(''references'', JStr ''x'')] ''references'')
   \<and> (\<forall>rs. map_of [(''references'', JStr ''x'')] ''references'' \<noteq> Some (JArr rs))
   \<and> add_spec_reference (JObj [(''references'', JStr ''x'')]) =
       Inl (TypeError ''some is not a function'')"
  using add_spec_reference_not_array [of "[(''references'', JStr ''x'')]"] by simp

text \<open>C24: a null entry in references that comes before any entry for ./tsconfig.spec.json makes the callback throw a TypeError when it reads r.path\<close>

theorem add_spec_reference_null_entry:
  "map_of kvs ''references'' = Some (JArr (pre @ JNull # post)) \<Longrightarrow> JNull \<notin> set pre \<Longrightarrow>
   \<not> list_ex is_spec_path pre \<Longrightarrow>
   add_spec_reference (JObj kvs) = Inl (TypeError ''Cannot read properties of null (reading path)'')"
  by (simp add: add_spec_reference_JObj js_some_append_False js_some_spec_reference is_spec_reference_eq)

theorem add_spec_reference_null_entry_witness:
  "map_of [(''references'', JArr [JNull])] ''references'' = Some (JArr ([] @ JNull # []))
   \<and> JNull \<notin> set [] \<and> \<not> list_ex is_spec_path []
   \<and> add_spec_reference (JObj [(''references'', JArr [JNull])]) =
       Inl (TypeError ''Cannot read properties of null (reading path)'')"
  using add_spec_reference_null_entry [of "[(''references'', JArr [JNull])]" "[]" "[]"] by simp

text \<open>C6: when compilerOptions is an object, the types callback leaves compilerOptions.types as the old array (or none) followed by 'vitest/importMeta'\<close>

theorem add_vitest_types_appends:
  assumes "map_of kvs ''compilerOptions'' = Some (JObj co)"
    and "add_vitest_types (JObj kvs) = Inr j'"
  shows "compiler_types j' = Some (old_types co @ [JStr vitest_import_meta])"
  using assms
  by (auto simp: add_vitest_types_JObj_JObj old_types_def split: option.splits json.splits)

theorem add_vitest_types_appends_witness:
  "map_of [(''compilerOptions'', JObj [])] ''compilerOptions'' = Some (JObj [])
   \<and> add_vitest_types (JObj [(''compilerOptions'', JObj [])]) =
       Inr (JObj [(''compilerOptions'', JObj [(''types'', JArr [JStr ''vitest/importMeta''])])])
   \<and> compiler_types (JObj [(''compilerOptions'', JObj [(''types'', JArr [JStr ''vitest/importMeta''])])])
       = Some (old_types [] @ [JStr vitest_import_meta])"
proof -
  have e: "add_vitest_types (JObj [(''compilerOptions'', JObj [])]) =
       Inr (JObj [(''compilerOptions'', JObj [(''types'', JArr [JStr ''vitest/importMeta''])])])"
    by (simp add: add_vitest_types_def vitest_import_meta_def)
  show ?thesis using e add_vitest_types_appends [OF _ e, of "[]"] by simp
qed

text \<open>C15: the types edit is not idempotent: whenever it succeeds on a compilerOptions object, its result already lists vitest/importMeta, and running it again succeeds and appends vitest/importMeta once more, so the document changes at every run\<close>

theorem add_vitest_types_repeat:
  assumes "map_of kvs ''compilerOptions'' = Some (JObj co)"
    and "add_vitest_types (JObj kvs) = Inr j'"
  shows "\<exists>ts j''. compiler_types j' = Some ts \<and> JStr vitest_import_meta \<in> set ts
           \<and> add_vitest_types j' = Inr j''
           \<and> compiler_types j'' = Some (ts @ [JStr vitest_import_meta]) \<and> j'' \<noteq> j'"
proof -
  let ?v = "JStr vitest_import_meta"
  define ts where "ts = old_types co @ [?v]"
  have j': "j' = JObj (alist_set ''compilerOptions'' (JObj (alist_set ''types'' (JArr ts) co)) kvs)"
    using assms by (auto simp: add_vitest_types_JObj_JObj old_types_def ts_def split: option.splits json.splits)
  define j'' where "j'' = JObj (alist_set ''compilerOptions''
                      (JObj (alist_set ''types'' (JArr (ts @ [?v])) co)) kvs)"
  have ct: "compiler_types j' = Some ts" and ct'': "compiler_types j'' = Some (ts @ [?v])"
    by (simp_all add: j' j''_def)
  have "add_vitest_types j' = Inr j''"
    by (simp add: j' j''_def add_vitest_types_JObj_JObj)
  moreover have "j'' \<noteq> j'" using ct ct'' by auto
  ultimately show ?thesis using ct ct'' by (auto simp: ts_def)
qed

theorem add_vitest_types_repeat_witness:
  "map_of [(''compilerOptions'', JObj [])] ''compilerOptions'' = Some (JObj [])
   \<and> add_vitest_types (JObj [(''compilerOptions'', JObj [])]) =
       Inr (JObj [(''compilerOptions'', JObj [(''types'', JArr [JStr vitest_import_meta])])])
   \<and> (\<exists>ts j''. compiler_types (JObj [(''compilerOptions'', JObj [(''types'', JArr [JStr vitest_import_meta])])]) = Some ts
         \<and> JStr vitest_import_meta \<in> set ts
         \<and> add_vitest_types (JObj [(''compilerOptions'', JObj [(''types'', JArr [JStr vitest_import_meta])])]) = Inr j''
         \<and> compiler_types j'' = Some (ts @ [JStr vitest_import_meta])
         \<and> j'' \<noteq> JObj [(''compilerOptions'', JObj [(''types'', JArr [JStr vitest_import_meta])])])"
proof -
  have h: "map_of [(''compilerOptions'', JObj [])] ''compilerOptions'' = Some (JObj [])" by simp
  have e: "add_vitest_types (JObj [(''compilerOptions'', JObj [])]) =
       Inr (JObj [(''compilerOptions'', JObj [(''types'', JArr [JStr vitest_import_meta])])])"
    by (simp add: add_vitest_types_JObj_JObj)
  show ?thesis using add_vitest_types_repeat [OF h e] h e by blast
qed

text \<open>C25: a document without compilerOptions makes the types callback throw a TypeError\<close>

theorem add_vitest_types_no_options:
  "map_of kvs ''compilerOptions'' = None \<Longrightarrow>
   add_vitest_types (JObj kvs) = Inl (TypeError ''Cannot read properties of undefined (reading types)'')"
  by (simp add: add_vitest_types_def)

theorem add_vitest_types_no_options_witness:
  "map_of [] ''compilerOptions'' = None
   \<and> add_vitest_types (JObj []) = Inl (TypeError ''Cannot read properties of undefined (reading types)'')"
  using add_vitest_types_no_options [of "[]"] by simp

text \<open>C26: a compilerOptions.types that is neither nullish nor an array makes the types callback throw a TypeError from push\<close>

theorem add_vitest_types_not_array:
  "map_of kvs ''compilerOptions'' = Some (JObj co) \<Longrightarrow> \<not> nullish (map_of co ''types'') \<Longrightarrow>
   \<forall>ts. map_of co ''types'' \<noteq> Some (JArr ts) \<Longrightarrow>
   add_vitest_types (JObj kvs) = Inl (TypeError ''push is not a function'')"
  by (cases "map_of co ''types''") (auto simp: add_vitest_types_JObj_JObj split: json.splits)

theorem add_vitest_types_not_array_witness:
  "map_of [(''compilerOptions'', JObj [(''types'', JStr ''node'')])] ''compilerOptions''
     = Some (JObj [(''types'', JStr ''node'')])
   \<and> \<not> nullish (map_of [(''types'', JStr ''node'')] ''types'')
   \<and> (\<forall>ts. map_of [(''types'', JStr ''node'')] ''types'' \<noteq> Some (JArr ts))
   \<and> add_vitest_types (JObj [(''compilerOptions'', JObj [(''types'', JStr ''node'')])])
       = Inl (TypeError ''push is not a function'')"
  using add_vitest_types_not_array [of "[(''compilerOptions'', JObj [(''types'', JStr ''node'')])]"
      "[(''types'', JStr ''node'')]"] by simp

text \<open>C27: when compilerOptions is an array the types callback silently leaves the document unchanged: the assigned types property is not part of the JSON\<close>

theorem add_vitest_types_array_options:
  "map_of kvs ''compilerOptions'' = Some (JArr xs) \<Longrightarrow> add_vitest_types (JObj kvs) = Inr (JObj kvs)"
  by (simp add: add_vitest_types_def alist_set_same)

theorem add_vitest_types_array_options_witness:
  "map_of [(''compilerOptions'', JArr [])] ''compilerOptions'' = Some (JArr [])
   \<and> add_vitest_types (JObj [(''compilerOptions'', JArr [])]) = Inr (JObj [(''compilerOptions'', JArr [])])"
  using add_vitest_types_array_options [of "[(''compilerOptions'', JArr [])]" "[]"] by simp

text \<open>C14: the types edit changes no top-level key but compilerOptions, and keeps the key order\<close>

theorem add_vitest_types_frame:
  assumes "add_vitest_types (JObj kvs) = Inr j'"
  shows "\<exists>kvs'. j' = JObj kvs' \<and> map fst kvs' = map fst kvs \<and>
           (\<forall>k. k \<noteq> ''compilerOptions'' \<longrightarrow> map_of kvs' k = map_of kvs k)"
  using assms
proof (cases rule: add_vitest_types_Inr_cases)
  case unchanged
  then show ?thesis by simp
next
  case (edited co ts)
  then have "''compilerOptions'' \<in> set (map fst kvs)"
    by (force dest: map_of_SomeD)
  with edited show ?thesis by (simp add: keys_alist_set)
qed

theorem add_vitest_types_frame_witness:
  "add_vitest_types (JObj [(''compilerOptions'', JObj []), (''include'', JArr [])]) =
     Inr (JObj [(''compilerOptions'', JObj [(''types'', JArr [JStr vitest_import_meta])]), (''include'', JArr [])])
   \<and> (\<exists>kvs'. JObj [(''compilerOptions'', JObj [(''types'', JArr [JStr vitest_import_meta])]),
                    (''include'', JArr [])] = JObj kvs'
        \<and> map fst kvs' = [''compilerOptions'', ''include'']
        \<and> (\<forall>k. k \<noteq> ''compilerOptions'' \<longrightarrow>
               map_of kvs' k = map_of [(''compilerOptions'', JObj []), (''include'', JArr [])] k))"
proof -
  have e: "add_vitest_types (JObj [(''compilerOptions'', JObj []), (''include'', JArr [])]) =
     Inr (JObj [(''compilerOptions'', JObj [(''types'', JArr [JStr vitest_import_meta])]), (''include'', JArr [])])"
    by (simp add: add_vitest_types_def)
  show ?thesis using e add_vitest_types_frame [OF e] by simp
qed

end
