(* ===== verification/Update_Ts_Config.thy ===== *)
theory Update_Ts_Config
  imports Tree Tsconfig_Edits
begin

text \<open>
  \<open>updateTsConfig(tree, options, projectRoot)\<close> of \<open>vitest-generator.ts\<close>
  (lines 53--93): the reference edit on the project's \<open>tsconfig.json\<close>, and, when
  \<open>options.inSourceTests\<close> is truthy, the types edit on \<open>tsconfig.lib.json\<close> if
  that file exists, else on \<open>tsconfig.app.json\<close> if that one exists. The options
  object is the generator's schema as a JavaScript object.
\<close>

definition tsconfig_path :: "string \<Rightarrow> string" where
  "tsconfig_path root = join_path_fragments [root, ''tsconfig.json'']"

definition tsconfig_lib_path :: "string \<Rightarrow> string" where
  "tsconfig_lib_path root = join_path_fragments [root, ''tsconfig.lib.json'']"

definition tsconfig_app_path :: "string \<Rightarrow> string" where
  "tsconfig_app_path root = join_path_fragments [root, ''tsconfig.app.json'']"

definition update_ts_config :: "js_object \<Rightarrow> string \<Rightarrow> workspace \<Rightarrow> workspace result" where
  "update_ts_config options project_root ws =
     bind_res (update_json (tsconfig_path project_root) add_spec_reference ws) (\<lambda>ws1.
       if truthy (map_of options ''inSourceTests'') then
         (if tree_exists ws1 (tsconfig_lib_path project_root)
          then update_json (tsconfig_lib_path project_root) add_vitest_types ws1
          else if tree_exists ws1 (tsconfig_app_path project_root)
          then update_json (tsconfig_app_path project_root) add_vitest_types ws1
          else Inr ws1)
       else Inr ws1)"

text \<open>Sample workspaces and options, used by the witnesses below.\<close>

abbreviation sample_root :: string where "sample_root \<equiv> ''libs/a''"

abbreviation sample_refs :: json where "sample_refs \<equiv> JObj [(''references'', JArr [])]"

abbreviation sample_lib :: json where "sample_lib \<equiv> JObj [(''compilerOptions'', JObj [])]"

abbreviation ws_ref :: workspace where
  "ws_ref \<equiv> \<lparr>files = [tsconfig_path sample_root \<mapsto> serialize_json sample_refs], projects = Map.empty\<rparr>"

abbreviation ws_lib :: workspace where
  "ws_lib \<equiv> \<lparr>files = [tsconfig_path sample_root \<mapsto> serialize_json sample_refs,
                       tsconfig_lib_path sample_root \<mapsto> serialize_json sample_lib], projects = Map.empty\<rparr>"

abbreviation ws_app :: workspace where
  "ws_app \<equiv> \<lparr>files = [tsconfig_path sample_root \<mapsto> serialize_json sample_refs,
                       tsconfig_app_path sample_root \<mapsto> serialize_json sample_lib], projects = Map.empty\<rparr>"

abbreviation in_source :: js_object where "in_source \<equiv> [(''inSourceTests'', JBool True)]"

abbreviation ws_ref' :: workspace where
  "ws_ref' \<equiv> tree_write (tsconfig_path sample_root) (serialize_json (JObj [(''references'', JArr [spec_reference])])) ws_ref"

abbreviation ws_lib' :: workspace where
  "ws_lib' \<equiv> tree_write (tsconfig_lib_path sample_root)
      (serialize_json (JObj [(''compilerOptions'', JObj [(''types'', JArr [JStr vitest_import_meta])])]))
      (tree_write (tsconfig_path sample_root) (serialize_json (JObj [(''references'', JArr [spec_reference])])) ws_lib)"

abbreviation ws_app' :: workspace where
  "ws_app' \<equiv> tree_write (tsconfig_app_path sample_root)
      (serialize_json (JObj [(''compilerOptions'', JObj [(''types'', JArr [JStr vitest_import_meta])])]))
      (tree_write (tsconfig_path sample_root) (serialize_json (JObj [(''references'', JArr [spec_reference])])) ws_app)"

subsection \<open>Helper lemmas\<close>

lemma tsconfig_paths_distinct [simp]:
  "tsconfig_lib_path root \<noteq> tsconfig_path root"
  "tsconfig_app_path root \<noteq> tsconfig_path root"
  "tsconfig_lib_path root \<noteq> tsconfig_app_path root"
  "tsconfig_path root \<noteq> tsconfig_lib_path root"
  "tsconfig_path root \<noteq> tsconfig_app_path root"
  "tsconfig_app_path root \<noteq> tsconfig_lib_path root"
  by (simp_all add: tsconfig_path_def tsconfig_lib_path_def tsconfig_app_path_def
        join_path_fragments_inj plain_name_def)

lemma update_json_files_other:
  "update_json p f ws = Inr ws' \<Longrightarrow> q \<noteq> p \<Longrightarrow> files ws' q = files ws q"
  by (auto simp: update_json_Inr_iff)

lemma update_json_projects:
  "update_json p f ws = Inr ws' \<Longrightarrow> projects ws' = projects ws"
  by (auto simp: update_json_Inr_iff)

lemma update_json_exists:
  "update_json p f ws = Inr ws' \<Longrightarrow> tree_exists ws' q = tree_exists ws q"
  by (auto simp: update_json_Inr_iff tree_exists_def read_json_def split: option.splits if_splits)

lemma update_json_spec_reference:
  "update_json p add_spec_reference ws = Inr ws' \<Longrightarrow>
   read_json ws' p = bind_res (read_json ws p) add_spec_reference"
  using update_json_read_back [of p add_spec_reference ws ws'] add_spec_reference_wf by auto

lemma update_json_vitest_types:
  "update_json p add_vitest_types ws = Inr ws' \<Longrightarrow>
   read_json ws' p = bind_res (read_json ws p) add_vitest_types"
  using update_json_read_back [of p add_vitest_types ws ws'] add_vitest_types_wf by auto

lemma read_json_update_other:
  "update_json p f ws = Inr ws' \<Longrightarrow> q \<noteq> p \<Longrightarrow> read_json ws' q = read_json ws q"
  by (simp add: read_json_def update_json_files_other)

lemma update_ts_config_no_in_source_eq:
  "\<not> truthy (map_of options ''inSourceTests'') \<Longrightarrow>
   update_ts_config options root ws = update_json (tsconfig_path root) add_spec_reference ws"
  by (cases "update_json (tsconfig_path root) add_spec_reference ws") (simp_all add: update_ts_config_def)

lemma update_json_idem:
  assumes "update_json p add_spec_reference ws = Inr ws1"
  shows "update_json p add_spec_reference ws1 = Inr ws1"
proof -
  from assms obtain j j' where r: "read_json ws p = Inr j" and e: "add_spec_reference j = Inr j'"
    and ws1: "ws1 = tree_write p (serialize_json j') ws"
    by (auto simp: update_json_Inr_iff)
  have "wf_json j'" using r e by (blast intro: add_spec_reference_wf read_json_wf)
  then have "read_json ws1 p = Inr j'" using ws1 by (simp add: read_json_tree_write)
  moreover have "add_spec_reference j' = Inr j'" using e by (rule add_spec_reference_idem)
  ultimately show ?thesis using ws1 by (simp add: update_json_def)
qed

text \<open>The three outcomes of a successful run, by which files it wrote.\<close>

lemma update_ts_config_Inr_cases:
  assumes "update_ts_config options root ws = Inr ws'"
  obtains ws1 where "update_json (tsconfig_path root) add_spec_reference ws = Inr ws1"
    and "ws' = ws1"
    and "\<not> truthy (map_of options ''inSourceTests'')
         \<or> (\<not> tree_exists ws (tsconfig_lib_path root) \<and> \<not> tree_exists ws (tsconfig_app_path root))"
  | ws1 where "update_json (tsconfig_path root) add_spec_reference ws = Inr ws1"
    and "truthy (map_of options ''inSourceTests'')" and "tree_exists ws (tsconfig_lib_path root)"
    and "update_json (tsconfig_lib_path root) add_vitest_types ws1 = Inr ws'"
  | ws1 where "update_json (tsconfig_path root) add_spec_reference ws = Inr ws1"
    and "truthy (map_of options ''inSourceTests'')" and "\<not> tree_exists ws (tsconfig_lib_path root)"
    and "tree_exists ws (tsconfig_app_path root)"
    and "update_json (tsconfig_app_path root) add_vitest_types ws1 = Inr ws'"
proof -
  from assms obtain ws1 where u1: "update_json (tsconfig_path root) add_spec_reference ws = Inr ws1"
    by (auto simp: update_ts_config_def bind_res_eq_Inr)
  have ex: "tree_exists ws1 q = tree_exists ws q" for q using u1 by (rule update_json_exists)
  show ?thesis
    using assms u1 that ex
    by (auto simp: update_ts_config_def split: if_splits)
qed

lemma update_ts_config_tsconfig:
  assumes "update_ts_config options root ws = Inr ws'"
  shows "read_json ws' (tsconfig_path root) = bind_res (read_json ws (tsconfig_path root)) add_spec_reference"
  using assms
proof (cases rule: update_ts_config_Inr_cases)
  case (1 ws1)
  then show ?thesis by (simp add: update_json_spec_reference)
next
  case (2 ws1)
  then show ?thesis by (simp add: read_json_update_other update_json_spec_reference)
next
  case (3 ws1)
  then show ?thesis by (simp add: read_json_update_other update_json_spec_reference)
qed

subsection \<open>Sample runs\<close>

lemma sample_reads:
  "read_json ws_ref (tsconfig_path sample_root) = Inr sample_refs"
  "read_json ws_lib (tsconfig_path sample_root) = Inr sample_refs"
  "read_json ws_lib (tsconfig_lib_path sample_root) = Inr sample_lib"
  "read_json ws_app (tsconfig_path sample_root) = Inr sample_refs"
  "read_json ws_app (tsconfig_app_path sample_root) = Inr sample_lib"
  by (simp_all add: read_json_def parse_serialize_json)

lemma sample_edits:
  "add_spec_reference sample_refs = Inr (JObj [(''references'', JArr [spec_reference])])"
  "add_vitest_types sample_lib = Inr (JObj [(''compilerOptions'', JObj [(''types'', JArr [JStr vitest_import_meta])])])"
  by (simp_all add: add_spec_reference_def add_vitest_types_def)

lemma sample_run_ref: "update_ts_config [] sample_root ws_ref = Inr ws_ref'"
  by (simp add: update_ts_config_def update_json_def sample_reads sample_edits)

lemma sample_run_lib: "update_ts_config in_source sample_root ws_lib = Inr ws_lib'"
proof -
  have "read_json (tree_write (tsconfig_path sample_root)
          (serialize_json (JObj [(''references'', JArr [spec_reference])])) ws_lib) (tsconfig_lib_path sample_root)
        = Inr sample_lib"
    by (simp add: read_json_tree_write_other sample_reads)
  then show ?thesis
    by (simp add: update_ts_config_def update_json_def sample_reads sample_edits tree_exists_def)
qed

lemma sample_run_app: "update_ts_config in_source sample_root ws_app = Inr ws_app'"
proof -
  have "read_json (tree_write (tsconfig_path sample_root)
          (serialize_json (JObj [(''references'', JArr [spec_reference])])) ws_app) (tsconfig_app_path sample_root)
        = Inr sample_lib"
    by (simp add: read_json_tree_write_other sample_reads)
  then show ?thesis
    by (simp add: update_ts_config_def update_json_def sample_reads sample_edits tree_exists_def)
qed

subsection \<open>Properties of updateTsConfig\<close>

text \<open>C3: after a successful run, tsconfig.json holds the reference edit of what it held before (read back through the devkit's serialiser and parser), whichever of the other files was edited\<close>

theorem update_ts_config_reference:
  assumes "update_ts_config options root ws = Inr ws'"
  shows "read_json ws' (tsconfig_path root) = bind_res (read_json ws (tsconfig_path root)) add_spec_reference"
  using assms by (rule update_ts_config_tsconfig)

theorem update_ts_config_reference_witness:
  "update_ts_config [] sample_root ws_ref = Inr ws_ref'
   \<and> read_json ws_ref' (tsconfig_path sample_root) = Inr (JObj [(''references'', JArr [spec_reference])])"
  using sample_run_ref update_ts_config_reference [OF sample_run_ref]
  by (simp add: sample_reads sample_edits)

text \<open>C9: without inSourceTests, running updateTsConfig a second time on its own result changes nothing: the reference is not added twice and the file text is the same\<close>

theorem update_ts_config_idempotent:
  assumes "\<not> truthy (map_of options ''inSourceTests'')"
  shows "bind_res (update_ts_config options root ws) (update_ts_config options root) =
           update_ts_config options root ws"
  using assms
  by (cases "update_json (tsconfig_path root) add_spec_reference ws")
     (simp_all add: update_ts_config_no_in_source_eq update_json_idem)

theorem update_ts_config_idempotent_witness:
  "\<not> truthy (map_of [] ''inSourceTests'')
   \<and> bind_res (update_ts_config [] sample_root ws_ref) (update_ts_config [] sample_root) = Inr ws_ref'"
  using update_ts_config_idempotent [of "[]" sample_root ws_ref] sample_run_ref by simp

text \<open>C4: with inSourceTests and an existing tsconfig.lib.json, the types edit is applied to tsconfig.lib.json and tsconfig.app.json is left as it was\<close>

theorem update_ts_config_lib:
  assumes "truthy (map_of options ''inSourceTests'')" and "tree_exists ws (tsconfig_lib_path root)"
    and "update_ts_config options root ws = Inr ws'"
  shows "read_json ws' (tsconfig_lib_path root) = bind_res (read_json ws (tsconfig_lib_path root)) add_vitest_types
         \<and> files ws' (tsconfig_app_path root) = files ws (tsconfig_app_path root)"
  using assms(3)
proof (cases rule: update_ts_config_Inr_cases)
  case (1 ws1)
  with assms(1,2) show ?thesis by simp
next
  case (2 ws1)
  then show ?thesis
    by (simp add: update_json_vitest_types read_json_update_other update_json_files_other)
next
  case (3 ws1)
  with assms(2) show ?thesis by simp
qed

theorem update_ts_config_lib_witness:
  "truthy (map_of in_source ''inSourceTests'') \<and> tree_exists ws_lib (tsconfig_lib_path sample_root)
   \<and> update_ts_config in_source sample_root ws_lib = Inr ws_lib'
   \<and> read_json ws_lib' (tsconfig_lib_path sample_root) =
       Inr (JObj [(''compilerOptions'', JObj [(''types'', JArr [JStr vitest_import_meta])])])
   \<and> files ws_lib' (tsconfig_app_path sample_root) = None"
proof -
  have e: "tree_exists ws_lib (tsconfig_lib_path sample_root)" by (simp add: tree_exists_def)
  show ?thesis
    using e sample_run_lib update_ts_config_lib [OF _ e sample_run_lib]
    by (simp add: sample_reads sample_edits)
qed

text \<open>C5: with inSourceTests, no tsconfig.lib.json and an existing tsconfig.app.json, the types edit is applied to tsconfig.app.json and no tsconfig.lib.json is created\<close>

theorem update_ts_config_app:
  assumes "truthy (map_of options ''inSourceTests'')" and "\<not> tree_exists ws (tsconfig_lib_path root)"
    and "tree_exists ws (tsconfig_app_path root)"
    and "update_ts_config options root ws = Inr ws'"
  shows "read_json ws' (tsconfig_app_path root) = bind_res (read_json ws (tsconfig_app_path root)) add_vitest_types
         \<and> \<not> tree_exists ws' (tsconfig_lib_path root)"
  using assms(4)
proof (cases rule: update_ts_config_Inr_cases)
  case (1 ws1)
  with assms(1,3) show ?thesis by simp
next
  case (2 ws1)
  with assms(2) show ?thesis by simp
next
  case (3 ws1)
  then show ?thesis
    using assms(2) update_json_exists [of "tsconfig_path root" add_spec_reference ws ws1]
      update_json_exists [of "tsconfig_app_path root" add_vitest_types ws1 ws']
    by (simp add: update_json_vitest_types read_json_update_other)
qed

theorem update_ts_config_app_witness:
  "truthy (map_of in_source ''inSourceTests'') \<and> \<not> tree_exists ws_app (tsconfig_lib_path sample_root)
   \<and> tree_exists ws_app (tsconfig_app_path sample_root)
   \<and> update_ts_config in_source sample_root ws_app = Inr ws_app'
   \<and> read_json ws_app' (tsconfig_app_path sample_root) =
       Inr (JObj [(''compilerOptions'', JObj [(''types'', JArr [JStr vitest_import_meta])])])
   \<and> \<not> tree_exists ws_app' (tsconfig_lib_path sample_root)"
proof -
  have e: "\<not> tree_exists ws_app (tsconfig_lib_path sample_root)" "tree_exists ws_app (tsconfig_app_path sample_root)"
    by (simp_all add: tree_exists_def)
  show ?thesis
    using e sample_run_app update_ts_config_app [OF _ e sample_run_app]
    by (simp add: sample_reads sample_edits)
qed

text \<open>C10: a successful run writes no file but tsconfig.json, tsconfig.lib.json and tsconfig.app.json of the project, and leaves the project configurations alone\<close>

theorem update_ts_config_frame:
  assumes "update_ts_config options root ws = Inr ws'"
    and "q \<noteq> tsconfig_path root" and "q \<noteq> tsconfig_lib_path root" and "q \<noteq> tsconfig_app_path root"
  shows "files ws' q = files ws q \<and> projects ws' = projects ws"
  using assms(1)
proof (cases rule: update_ts_config_Inr_cases)
  case (1 ws1)
  with assms(2) show ?thesis by (simp add: update_json_files_other update_json_projects)
next
  case (2 ws1)
  with assms(2,3) show ?thesis by (simp add: update_json_files_other update_json_projects)
next
  case (3 ws1)
  with assms(2,4) show ?thesis by (simp add: update_json_files_other update_json_projects)
qed

theorem update_ts_config_frame_witness:
  "update_ts_config in_source sample_root ws_lib = Inr ws_lib'
   \<and> ''README.md'' \<noteq> tsconfig_path sample_root \<and> ''README.md'' \<noteq> tsconfig_lib_path sample_root
   \<and> ''README.md'' \<noteq> tsconfig_app_path sample_root
   \<and> files ws_lib' ''README.md'' = files ws_lib ''README.md'' \<and> projects ws_lib' = projects ws_lib"
proof -
  have n: "''README.md'' \<noteq> tsconfig_path sample_root" "''README.md'' \<noteq> tsconfig_lib_path sample_root"
    "''README.md'' \<noteq> tsconfig_app_path sample_root"
    by (simp_all add: tsconfig_path_def tsconfig_lib_path_def tsconfig_app_path_def
          join_path_fragments_file plain_name_def Let_def to_slashes_def)
  show ?thesis using sample_run_lib n update_ts_config_frame [OF sample_run_lib n] by simp
qed

text \<open>C21: without inSourceTests, a successful run changes no file but tsconfig.json\<close>

theorem update_ts_config_no_in_source:
  assumes "\<not> truthy (map_of options ''inSourceTests'')"
    and "update_ts_config options root ws = Inr ws'" and "q \<noteq> tsconfig_path root"
  shows "files ws' q = files ws q"
  using assms by (simp add: update_ts_config_no_in_source_eq update_json_files_other)

theorem update_ts_config_no_in_source_witness:
  "\<not> truthy (map_of [] ''inSourceTests'') \<and> update_ts_config [] sample_root ws_ref = Inr ws_ref'
   \<and> tsconfig_lib_path sample_root \<noteq> tsconfig_path sample_root
   \<and> files ws_ref' (tsconfig_lib_path sample_root) = files ws_ref (tsconfig_lib_path sample_root)"
  using update_ts_config_no_in_source [of "[]" sample_root ws_ref ws_ref' "tsconfig_lib_path sample_root"]
    sample_run_ref by simp

text \<open>C22: a project without tsconfig.json makes updateTsConfig fail with the devkit's file-not-found error before any file is written\<close>

theorem update_ts_config_missing:
  assumes "files ws (tsconfig_path root) = None"
  shows "update_ts_config options root ws = Inl (FileNotFound (tsconfig_path root))"
  using assms by (simp add: update_ts_config_def update_json_def read_json_def)

theorem update_ts_config_missing_witness:
  "files \<lparr>files = Map.empty, projects = Map.empty\<rparr> (tsconfig_path sample_root) = None
   \<and> update_ts_config in_source sample_root \<lparr>files = Map.empty, projects = Map.empty\<rparr>
       = Inl (FileNotFound (tsconfig_path sample_root))"
  using update_ts_config_missing [of "\<lparr>files = Map.empty, projects = Map.empty\<rparr>" sample_root in_source]
  by simp

end
