(* ===== verification/Vitest_Generator.thy ===== *)
theory Vitest_Generator
  imports Update_Ts_Config
begin

text \<open>
  \<open>vitestGenerator(tree, schema)\<close> (lines 22--51) and \<open>createFiles\<close> (lines
  95--106) of \<open>vitest-generator.ts\<close>. The generator is a sequence of steps over the
  workspace; an exception of any step ends it and the host discards the workspace
  (the result is \<open>Inl\<close>). The steps that call code outside the sources
  (\<open>findExistingTargets\<close>, \<open>addOrChangeTestTarget\<close>, the init generator,
  \<open>writeViteConfig\<close>, \<open>generateFiles\<close>, \<open>formatFiles\<close>) are the fields of a
  record of host operations, the interface the generator is verified against;
  a deferred callback (\<open>GeneratorCallback\<close>) is a function on the state \<open>'env\<close> of
  the world outside the tree (installed packages), which may throw.
  The schema is the JavaScript options object; \<open>{...schema, includeVitest: true}\<close>
  and the template substitutions are built with the object spread of JavaScript.
\<close>

type_synonym 'env callback = "'env \<Rightarrow> 'env result"

text \<open>
  The imported operations, and \<open>__dirname\<close> (\<open>module_dir\<close>), the directory the
  module is loaded from, which locates the template files.
\<close>

record 'env host =
  find_test_target :: "js_object \<Rightarrow> string option"
  add_or_change_test_target :: "js_object \<Rightarrow> string option \<Rightarrow> workspace \<Rightarrow> workspace result"
  init_generator :: "json option \<Rightarrow> workspace \<Rightarrow> (workspace \<times> 'env callback) result"
  write_vite_config :: "js_object \<Rightarrow> workspace \<Rightarrow> workspace result"
  generate_files :: "string \<Rightarrow> string \<Rightarrow> js_object \<Rightarrow> workspace \<Rightarrow> workspace result"
  format_files :: "workspace \<Rightarrow> workspace result"
  module_dir :: string

text \<open>\<open>{...src}\<close> spread into \<open>tgt\<close>: each own property of \<open>src\<close> assigned in order.\<close>

definition js_spread :: "js_object \<Rightarrow> js_object \<Rightarrow> js_object" where
  "js_spread src tgt = fold (\<lambda>(k, v) acc. alist_set k v acc) src tgt"

text \<open>
  The substitutions \<open>createFiles\<close> hands to \<open>generateFiles\<close>:
  \<open>{tmpl: '', ...options, projectRoot, offsetFromRoot: offsetFromRoot(projectRoot)}\<close>.
\<close>

definition template_substitutions :: "js_object \<Rightarrow> string \<Rightarrow> js_object" where
  "template_substitutions options project_root =
     alist_set ''offsetFromRoot'' (JStr (offset_from_root project_root))
       (alist_set ''projectRoot'' (JStr project_root)
         (js_spread options [(''tmpl'', JStr [])]))"

definition create_files :: "'env host \<Rightarrow> js_object \<Rightarrow> string \<Rightarrow> workspace \<Rightarrow> workspace result" where
  "create_files h options project_root ws =
     generate_files h (join_path_fragments [module_dir h, ''files'']) project_root
       (template_substitutions options project_root) ws"

definition schema_project :: "js_object \<Rightarrow> string" where
  "schema_project schema = (case map_of schema ''project'' of Some (JStr p) \<Rightarrow> p | _ \<Rightarrow> ''undefined'')"

text \<open>\<open>runTasksInSerial(...tasks)\<close>: the callback that runs the tasks one after the other, each awaited before the next, a failure ending the run.\<close>

fun run_tasks_in_serial :: "'env callback list \<Rightarrow> 'env callback" where
  "run_tasks_in_serial [] env = Inr env"
| "run_tasks_in_serial (t # ts) env = bind_res (t env) (run_tasks_in_serial ts)"

definition vitest_generator ::
  "'env host \<Rightarrow> js_object \<Rightarrow> workspace \<Rightarrow> (workspace \<times> 'env callback) result" where
  "vitest_generator h schema tree =
     bind_res (read_project_configuration tree (schema_project schema)) (\<lambda>pc.
     (let test_target = find_test_target h (proj_targets pc) in
     bind_res (add_or_change_test_target h schema test_target tree) (\<lambda>tree1.
     bind_res (init_generator h (map_of schema ''uiFramework'') tree1) (\<lambda>(tree2, init_task).
     (let tasks = [init_task] in
     bind_res
       (if \<not> truthy (map_of schema ''skipViteConfig'')
        then write_vite_config h (alist_set ''includeVitest'' (JBool True) (js_spread schema [])) tree2
        else Inr tree2) (\<lambda>tree3.
     bind_res (create_files h schema (proj_root pc) tree3) (\<lambda>tree4.
     bind_res (update_ts_config schema (proj_root pc) tree4) (\<lambda>tree5.
     bind_res (format_files h tree5) (\<lambda>tree6.
     Inr (tree6, run_tasks_in_serial tasks))))))))))"

text \<open>
  What the generator's lemmas assume of the host for one file \<open>p\<close>: the steps before
  \<open>updateTsConfig\<close> leave its text alone and \<open>formatFiles\<close> at most reformats it (the
  document read from it is the same).
\<close>

definition keeps_file :: "'env host \<Rightarrow> string \<Rightarrow> bool" where
  "keeps_file h p \<longleftrightarrow>
     (\<forall>s t w w'. add_or_change_test_target h s t w = Inr w' \<longrightarrow> files w' p = files w p) \<and>
     (\<forall>u w w' t. init_generator h u w = Inr (w', t) \<longrightarrow> files w' p = files w p) \<and>
     (\<forall>opts w w'. write_vite_config h opts w = Inr w' \<longrightarrow> files w' p = files w p) \<and>
     (\<forall>src r opts w w'. generate_files h src r opts w = Inr w' \<longrightarrow> files w' p = files w p) \<and>
     (\<forall>w w'. format_files h w = Inr w' \<longrightarrow> read_json w' p = read_json w p)"

subsection \<open>Sample host and workspace\<close>

text \<open>A host whose operations change nothing and a workspace with one project at \<open>libs/a\<close>.\<close>

abbreviation id_host :: "unit host" where
  "id_host \<equiv> \<lparr>find_test_target = \<lambda>_. None, add_or_change_test_target = \<lambda>_ _ w. Inr w,
     init_generator = \<lambda>_ w. Inr (w, Inr), write_vite_config = \<lambda>_ w. Inr w,
     generate_files = \<lambda>_ _ _ w. Inr w, format_files = Inr, module_dir = ''dist/generators/vitest''\<rparr>"

abbreviation gen_schema :: js_object where "gen_schema \<equiv> [(''project'', JStr ''a'')]"

abbreviation gen_ws :: workspace where
  "gen_ws \<equiv> \<lparr>files = [tsconfig_path sample_root \<mapsto> serialize_json sample_refs],
     projects = [''a'' \<mapsto> \<lparr>proj_root = sample_root, proj_targets = []\<rparr>]\<rparr>"

abbreviation gen_ws' :: workspace where
  "gen_ws' \<equiv> tree_write (tsconfig_path sample_root) (serialize_json (JObj [(''references'', JArr [spec_reference])])) gen_ws"

subsection \<open>Helper lemmas\<close>

lemma map_of_js_spread: "map_of (js_spread src tgt) = map_of tgt ++ map_of (rev src)"
proof (induction src arbitrary: tgt)
  case Nil
  then show ?case by (simp add: js_spread_def)
next
  case (Cons kv src)
  obtain k v where kv: "kv = (k, v)" by (cases kv)
  have "map_of (js_spread (kv # src) tgt) = map_of (js_spread src (alist_set k v tgt))"
    by (simp add: js_spread_def kv)
  also have "\<dots> = (map_of tgt)(k \<mapsto> v) ++ map_of (rev src)"
    by (simp only: Cons.IH map_of_alist_set)
  also have "\<dots> = map_of tgt ++ map_of (rev (kv # src))"
    by (simp add: kv map_add_def fun_eq_iff split: option.split)
  finally show ?case .
qed

lemma run_tasks_in_serial_single: "run_tasks_in_serial [t] = t"
proof
  fix env show "run_tasks_in_serial [t] env = t env" by (cases "t env") simp_all
qed

lemma vitest_generator_Inr_cases:
  assumes "vitest_generator h schema ws = Inr (ws', cb)"
  obtains pc w1 w2 t w3 w4 w5 where
    "read_project_configuration ws (schema_project schema) = Inr pc"
    "add_or_change_test_target h schema (find_test_target h (proj_targets pc)) ws = Inr w1"
    "init_generator h (map_of schema ''uiFramework'') w1 = Inr (w2, t)"
    "(if \<not> truthy (map_of schema ''skipViteConfig'')
      then write_vite_config h (alist_set ''includeVitest'' (JBool True) (js_spread schema [])) w2
      else Inr w2) = Inr w3"
    "create_files h schema (proj_root pc) w3 = Inr w4"
    "update_ts_config schema (proj_root pc) w4 = Inr w5"
    "format_files h w5 = Inr ws'"
    "cb = run_tasks_in_serial [t]"
  using assms
  by (auto simp: vitest_generator_def bind_res_eq_Inr Let_def split: prod.splits)

lemma sample_generator_run: "vitest_generator id_host gen_schema gen_ws = Inr (gen_ws', run_tasks_in_serial [Inr])"
  by (simp add: vitest_generator_def read_project_configuration_def schema_project_def create_files_def
      update_ts_config_def update_json_def read_json_def parse_serialize_json sample_edits)

text \<open>
  Under \<open>keeps_file\<close> for the project's \<open>tsconfig.json\<close>, the generator's effect on
  that file is the reference edit.
\<close>

lemma vitest_generator_tsconfig_edit:
  assumes run: "vitest_generator h schema ws = Inr (ws', cb)"
    and pc: "projects ws (schema_project schema) = Some pc"
    and keep: "keeps_file h (tsconfig_path (proj_root pc))"
  shows "read_json ws' (tsconfig_path (proj_root pc)) =
           bind_res (read_json ws (tsconfig_path (proj_root pc))) add_spec_reference"
  using run
proof (cases rule: vitest_generator_Inr_cases)
  case (1 pc' w1 w2 t w3 w4 w5)
  from pc 1(1) have pc': "pc' = pc" by (simp add: read_project_configuration_def)
  let ?p = "tsconfig_path (proj_root pc)"
  have "files w1 ?p = files ws ?p" using 1(2) keep by (simp add: keeps_file_def)
  moreover have "files w2 ?p = files w1 ?p" using 1(3) keep unfolding keeps_file_def by blast
  moreover have "files w3 ?p = files w2 ?p"
    using 1(4) keep by (cases "truthy (map_of schema ''skipViteConfig'')") (auto simp: keeps_file_def)
  moreover have "files w4 ?p = files w3 ?p"
    using 1(5) keep by (simp add: create_files_def pc' keeps_file_def)
  ultimately have r4: "read_json w4 ?p = read_json ws ?p" by (simp add: read_json_def)
  have "read_json w5 ?p = bind_res (read_json w4 ?p) add_spec_reference"
    using 1(6) pc' by (simp add: update_ts_config_tsconfig)
  moreover have "read_json ws' ?p = read_json w5 ?p" using 1(7) keep by (simp add: keeps_file_def)
  ultimately show ?thesis using r4 by simp
qed

lemma keeps_file_id_host: "keeps_file id_host p"
  by (simp add: keeps_file_def)

lemma sample_generator_rerun: "vitest_generator id_host gen_schema gen_ws' = Inr (gen_ws', run_tasks_in_serial [Inr])"
proof -
  have "add_spec_reference (JObj [(''references'', JArr [spec_reference])])
          = Inr (JObj [(''references'', JArr [spec_reference])])"
    by (simp add: add_spec_reference_JObj is_spec_reference_eq spec_reference_def is_spec_path_def)
  moreover have "wf_json (JObj [(''references'', JArr [spec_reference])])"
    by (simp add: spec_reference_def)
  ultimately show ?thesis
    by (simp add: vitest_generator_def read_project_configuration_def schema_project_def create_files_def
        update_ts_config_def update_json_def read_json_def parse_serialize_json)
qed

subsection \<open>Properties of the generator\<close>

text \<open>C17: a schema naming a project that the workspace does not configure makes the generator fail with readProjectConfiguration's error, before any step runs\<close>

theorem vitest_generator_no_project:
  assumes "map_of schema ''project'' = Some (JStr name)" and "projects ws name = None"
  shows "vitest_generator h schema ws = Inl (ProjectNotFound name)"
  using assms by (simp add: vitest_generator_def schema_project_def read_project_configuration_def)

theorem vitest_generator_no_project_witness:
  "map_of gen_schema ''project'' = Some (JStr ''a'') \<and> projects ws_ref ''a'' = None
   \<and> vitest_generator id_host gen_schema ws_ref = Inl (ProjectNotFound ''a'')"
  using vitest_generator_no_project [where h = id_host and schema = gen_schema and name = "''a''" and ws = ws_ref] by simp

text \<open>C18: the callback the generator returns is runTasksInSerial of exactly one task, the callback the init generator returned, so running it runs that callback and nothing else\<close>

theorem vitest_generator_tasks:
  assumes "vitest_generator h schema ws = Inr (ws', cb)"
  shows "\<exists>w1 w2 t. init_generator h (map_of schema ''uiFramework'') w1 = Inr (w2, t)
           \<and> cb = run_tasks_in_serial [t] \<and> cb = t"
  using assms
proof (cases rule: vitest_generator_Inr_cases)
  case (1 pc w1 w2 t w3 w4 w5)
  then show ?thesis by (auto simp: run_tasks_in_serial_single)
qed

theorem vitest_generator_tasks_witness:
  "vitest_generator id_host gen_schema gen_ws = Inr (gen_ws', run_tasks_in_serial [Inr])
   \<and> (\<exists>w1 w2 t. init_generator id_host (map_of gen_schema ''uiFramework'') w1 = Inr (w2, t)
         \<and> run_tasks_in_serial [Inr] = run_tasks_in_serial [t] \<and> run_tasks_in_serial [Inr] = t)"
  using vitest_generator_tasks [OF sample_generator_run] sample_generator_run by blast

text \<open>C16: with skipViteConfig truthy the generator never calls writeViteConfig: its result does not depend on that operation\<close>

theorem vitest_generator_skip_vite_config:
  assumes "truthy (map_of schema ''skipViteConfig'')"
  shows "vitest_generator (h\<lparr>write_vite_config := w\<rparr>) schema ws = vitest_generator h schema ws"
  using assms by (simp add: vitest_generator_def create_files_def)

theorem vitest_generator_skip_vite_config_witness:
  "truthy (map_of ((''skipViteConfig'', JBool True) # gen_schema) ''skipViteConfig'')
   \<and> vitest_generator (id_host\<lparr>write_vite_config := \<lambda>_ _. Inl (TypeError ''vite'')\<rparr>) ((''skipViteConfig'', JBool True) # gen_schema) gen_ws
     = vitest_generator id_host ((''skipViteConfig'', JBool True) # gen_schema) gen_ws"
  using vitest_generator_skip_vite_config
          [where schema = "(''skipViteConfig'', JBool True) # gen_schema" and h = id_host
             and w = "\<lambda>_ _. Inl (TypeError ''vite'')" and ws = gen_ws]
  by simp

text \<open>C19: the template substitutions are tmpl = '' and the options, with projectRoot and offsetFromRoot set to the project's root and its offset whatever the options say\<close>

theorem template_substitutions_map:
  "map_of (template_substitutions options root) =
     (map_of [(''tmpl'', JStr [])] ++ map_of (rev options))
       (''projectRoot'' \<mapsto> JStr root, ''offsetFromRoot'' \<mapsto> JStr (offset_from_root root))"
  by (simp add: template_substitutions_def map_of_js_spread)

text \<open>C20: for a project root made of plain directory names, the templates receive as offsetFromRoot one ../ per directory, the path back to the workspace root, whatever offsetFromRoot the options carry\<close>

theorem template_substitutions_offset:
  assumes "list_all plain_name segs" and "segs \<noteq> []"
  shows "map_of (template_substitutions options (join_segs segs)) ''offsetFromRoot''
           = Some (JStr (concat (replicate (length segs) ''../'')))"
  using assms by (simp add: template_substitutions_def offset_from_root_segments)

theorem template_substitutions_offset_witness:
  "list_all plain_name [''libs'', ''my-lib''] \<and> [''libs'', ''my-lib''] \<noteq> []
   \<and> map_of (template_substitutions [(''offsetFromRoot'', JStr ''x'')] ''libs/my-lib'') ''offsetFromRoot''
       = Some (JStr ''../../'')"
proof -
  have p: "list_all plain_name [''libs'', ''my-lib'']" by (simp add: plain_name_def)
  show ?thesis
    using template_substitutions_offset [OF p, where options = "[(''offsetFromRoot'', JStr ''x'')]"] p by simp
qed

text \<open>runTasksInSerial runs the tasks in list order: running a concatenation runs the first list, then the second from the state it left\<close>

theorem run_tasks_in_serial_append:
  "run_tasks_in_serial (ts1 @ ts2) env =
     bind_res (run_tasks_in_serial ts1 env) (run_tasks_in_serial ts2)"
proof (induction ts1 arbitrary: env)
  case (Cons t ts1)
  have "run_tasks_in_serial (ts1 @ ts2) =
          (\<lambda>e. bind_res (run_tasks_in_serial ts1 e) (run_tasks_in_serial ts2))"
    using Cons.IH by (simp add: fun_eq_iff)
  then show ?case by (simp add: bind_res_assoc)
qed simp

text \<open>C7: when the host steps leave the project's tsconfig.json alone (formatFiles at most reformatting it), the generator leaves tsconfig.json holding the reference edit of what it held before\<close>

theorem vitest_generator_tsconfig:
  assumes "vitest_generator h schema ws = Inr (ws', cb)"
    and "projects ws (schema_project schema) = Some pc"
    and "keeps_file h (tsconfig_path (proj_root pc))"
  shows "read_json ws' (tsconfig_path (proj_root pc)) =
           bind_res (read_json ws (tsconfig_path (proj_root pc))) add_spec_reference"
  using assms by (rule vitest_generator_tsconfig_edit)

theorem vitest_generator_tsconfig_witness:
  "vitest_generator id_host gen_schema gen_ws = Inr (gen_ws', run_tasks_in_serial [Inr])
   \<and> projects gen_ws (schema_project gen_schema) = Some \<lparr>proj_root = sample_root, proj_targets = []\<rparr>
   \<and> keeps_file id_host (tsconfig_path sample_root)
   \<and> read_json gen_ws' (tsconfig_path sample_root) =
       bind_res (read_json gen_ws (tsconfig_path sample_root)) add_spec_reference"
proof -
  have pc: "projects gen_ws (schema_project gen_schema) = Some \<lparr>proj_root = sample_root, proj_targets = []\<rparr>"
    by (simp add: schema_project_def)
  show ?thesis
    using vitest_generator_tsconfig [OF sample_generator_run pc keeps_file_id_host] sample_generator_run pc
    keeps_file_id_host by simp
qed

end
