(* ===== verification/Spec2Isabelle.thy ===== *)
theory Spec2Isabelle
  imports Vitest_Generator
begin

text \<open>
  Verification development for the vitest generator of the Nx vite plugin,
  \<open>src/packages/vite/src/generators/vitest/vitest-generator.ts\<close>.

  \<^bold>\<open>The program.\<close> \<open>vitestGenerator(tree, schema)\<close> (lines 22--51) reads the
  project's configuration, lets \<open>addOrChangeTestTarget\<close> set up the test target,
  runs the vite init generator and keeps its callback, writes the vite config
  unless \<open>skipViteConfig\<close>, generates the template files (\<open>createFiles\<close>,
  lines 95--106), edits the project's tsconfig files (\<open>updateTsConfig\<close>, lines
  53--93), formats the files and returns \<open>runTasksInSerial\<close> of the callbacks.
  \<open>updateTsConfig\<close> always runs one \<open>updateJson\<close> on \<open>tsconfig.json\<close> whose callback
  adds \<open>{path: './tsconfig.spec.json'}\<close> to a truthy \<open>references\<close> without one;
  with \<open>inSourceTests\<close> it runs a second \<open>updateJson\<close> on \<open>tsconfig.lib.json\<close> when
  it exists, else on \<open>tsconfig.app.json\<close> when that exists, whose callback pushes
  \<open>vitest/importMeta\<close> onto \<open>compilerOptions.types\<close>.

  \<^bold>\<open>Theories.\<close>
  \<^item> \<open>Prelude\<close>: the exceptions as the datatype \<open>error\<close>, results as
    \<open>error + 'a\<close> with \<open>bind_res\<close> (the propagation of an exception), and objects as
    association lists updated by \<open>alist_set\<close> (JavaScript assignment: an existing
    key keeps its place, a new key goes last).
  \<^item> \<open>Json\<close>: the parsed document (\<open>json\<close>, \<open>JObj\<close> keeping key order) and the
    JavaScript the callbacks execute: property read (\<open>get_prop\<close>, a TypeError on
    undefined or null), strict-mode assignment (\<open>assign_prop\<close>), truthiness,
    the nullish test of \<open>??=\<close>, \<open>Array.prototype.some\<close> (short-circuiting,
    \<open>js_some\<close>) and \<open>push\<close>.
  \<^item> \<open>Tsconfig_Edits\<close>: the two \<open>updateJson\<close> callbacks as \<open>add_spec_reference\<close>
    (lines 58--68) and \<open>add_vitest_types\<close> (lines 77--80, the same code as 86--89),
    each a function from the document to the edited document or the TypeError it
    throws, with every branch of the JavaScript as a branch of the definition.
  \<^item> \<open>Json_Codec\<close>, \<open>Paths\<close>, \<open>Tree\<close>: the devkit the generator calls, whose code
    is not in the sources, modelled from its documented behaviour:
    \<open>serializeJson\<close> (\<open>JSON.stringify\<close> with indent 2) and \<open>parseJson\<close>;
    \<open>joinPathFragments\<close> and \<open>offsetFromRoot\<close>; the \<open>Tree\<close> as a record of files
    and project configurations, \<open>readJson\<close>, \<open>updateJson\<close> (read, parse, callback,
    write back) and \<open>readProjectConfiguration\<close>.
  \<^item> \<open>Update_Ts_Config\<close>: \<open>updateTsConfig\<close> as \<open>update_ts_config\<close> over the
    workspace state, with the tsconfig paths of lines 58, 71 and 72.
  \<^item> \<open>Vitest_Generator\<close>: \<open>createFiles\<close> (\<open>create_files\<close>,
    \<open>template_substitutions\<close>, object spread as \<open>js_spread\<close>), the generator as
    \<open>vitest_generator\<close> and \<open>runTasksInSerial\<close>. The functions of other packages the
    generator calls (\<open>findExistingTargets\<close>, \<open>addOrChangeTestTarget\<close>,
    \<open>initGenerator\<close>, \<open>writeViteConfig\<close>, \<open>generateFiles\<close>, \<open>formatFiles\<close>) are the
    fields of the record \<open>host\<close>, with \<open>__dirname\<close> (\<open>module_dir\<close>, which
    locates the template directory passed to \<open>generateFiles\<close>): the generator's
    lemmas hold for every host, or state what they assume of it. A
    \<open>GeneratorCallback\<close> is a function \<open>'env callback\<close> on the state outside the tree,
    and the generator returns \<open>runTasksInSerial\<close> of its callbacks as such a function.

  Each step that can throw returns \<open>Inl\<close> of its error; the generator's result is
  \<open>Inl\<close> as soon as one step throws, and the host then discards the tree, so the
  model keeps no partially updated workspace. The asynchronous steps
  (\<open>await initGenerator\<close>, \<open>await formatFiles\<close>) are sequenced in program order.

  \<^bold>\<open>What is proved.\<close>
  \<^item> The callbacks (\<open>Tsconfig_Edits\<close>): the reference edit appends exactly one
    entry at the end, is idempotent, leaves every other key and the key order
    alone, never duplicates the reference; the types edit appends
    \<open>vitest/importMeta\<close> to the old list and touches nothing else, but is never
    idempotent (its result lists \<open>vitest/importMeta\<close> and a further run appends it
    again); every TypeError path (scalar \<open>references\<close>, a null entry before a
    match, missing \<open>compilerOptions\<close>, non-array \<open>types\<close>) and the silent no-ops
    (falsy \<open>references\<close>, array \<open>compilerOptions\<close>) are characterised.
  \<^item> The codec (\<open>Json_Codec\<close>): parsing the serialisation of a well-formed
    document gives it back, so each \<open>updateJson\<close> hands its callback the document
    the previous write stored. The parser is a function with fuel (a result
    \<open>None\<close> when it runs out); \<open>parse_json\<close> gives it the text's length plus one, and
    the roundtrip theorem proves that fuel is enough for every serialised document,
    each unit of fuel being spent on at least one character.
  \<^item> \<open>updateTsConfig\<close> (\<open>Update_Ts_Config\<close>): after a run \<open>tsconfig.json\<close> holds the
    reference edit of its old content; with \<open>inSourceTests\<close> the types edit goes to
    \<open>tsconfig.lib.json\<close> if it exists and otherwise to \<open>tsconfig.app.json\<close>; no
    other file and no project configuration changes; without \<open>inSourceTests\<close> a
    second run changes nothing; a missing \<open>tsconfig.json\<close> is an error.
  \<^item> The generator (\<open>Vitest_Generator\<close>): a missing project is an error before
    any step; the callback it returns is \<open>runTasksInSerial\<close> of the init
    generator's callback alone, and behaves as that callback; with
    \<open>skipViteConfig\<close> the result does not depend on \<open>writeViteConfig\<close>; the template
    substitutions always carry the project's root and offset; for a host that
    leaves \<open>tsconfig.json\<close> alone (\<open>keeps_file\<close>: the steps before
    \<open>updateTsConfig\<close> do not write it, \<open>formatFiles\<close> at most reformats it), the
    generator's effect on it is the reference edit; \<open>runTasksInSerial\<close> runs the
    tasks in order.
  \<^item> Across the components (this theory): for such a host, running the generator
    again on its own output leaves the document in \<open>tsconfig.json\<close> as it was,
    which combines the generator's effect, the codec roundtrip and the idempotence
    of the reference edit.

  \<^bold>\<open>Not modelled.\<close> The code of the host operations (other packages), the
  template files and \<open>generateFiles\<close>' rendering, the schematic adapter
  \<open>vitestSchematic\<close> (line 109, no logic of its own), and the parts of
  \<open>parseJson\<close> the generator never needs (comments, trailing commas, number
  fractions and exponents: numbers are integers).
\<close>

subsection \<open>Properties spanning the components\<close>

text \<open>C8: re-running the generator on its own output does not add the ./tsconfig.spec.json reference again: when the host keeps tsconfig.json and the project has the same root in both runs, the second run leaves the document in tsconfig.json as the first run left it\<close>

theorem vitest_generator_rerun_tsconfig:
  assumes run1: "vitest_generator h schema ws = Inr (ws1, cb1)"
    and run2: "vitest_generator h schema ws1 = Inr (ws2, cb2)"
    and pc: "projects ws (schema_project schema) = Some pc"
    and pc1: "projects ws1 (schema_project schema) = Some pc1" and root: "proj_root pc1 = proj_root pc"
    and keep: "keeps_file h (tsconfig_path (proj_root pc))"
  shows "read_json ws2 (tsconfig_path (proj_root pc)) = read_json ws1 (tsconfig_path (proj_root pc))"
proof -
  let ?p = "tsconfig_path (proj_root pc)"
  have r1: "read_json ws1 ?p = bind_res (read_json ws ?p) add_spec_reference"
    using run1 pc keep by (rule Vitest_Generator.vitest_generator_tsconfig_edit)
  have "read_json ws2 (tsconfig_path (proj_root pc1)) =
          bind_res (read_json ws1 (tsconfig_path (proj_root pc1))) add_spec_reference"
    using run2 pc1 keep [folded root] by (rule Vitest_Generator.vitest_generator_tsconfig_edit)
  then have r2: "read_json ws2 ?p = bind_res (read_json ws1 ?p) add_spec_reference"
    by (simp only: root)
  show ?thesis
  proof (cases "bind_res (read_json ws ?p) add_spec_reference")
    case (Inr j')
    then have "add_spec_reference j' = Inr j'"
      by (auto simp: bind_res_eq_Inr intro: add_spec_reference_idem)
    with r1 r2 Inr show ?thesis by simp
  qed (simp add: r1 r2)
qed

theorem vitest_generator_rerun_tsconfig_witness:
  "vitest_generator id_host gen_schema gen_ws = Inr (gen_ws', run_tasks_in_serial [Inr])
   \<and> vitest_generator id_host gen_schema gen_ws' = Inr (gen_ws', run_tasks_in_serial [Inr])
   \<and> projects gen_ws (schema_project gen_schema) = Some \<lparr>proj_root = sample_root, proj_targets = []\<rparr>
   \<and> projects gen_ws' (schema_project gen_schema) = Some \<lparr>proj_root = sample_root, proj_targets = []\<rparr>
   \<and> keeps_file id_host (tsconfig_path sample_root)
   \<and> read_json gen_ws' (tsconfig_path sample_root) = read_json gen_ws' (tsconfig_path sample_root)"
proof -
  have pc: "projects gen_ws (schema_project gen_schema) = Some \<lparr>proj_root = sample_root, proj_targets = []\<rparr>"
    and pc1: "projects gen_ws' (schema_project gen_schema) = Some \<lparr>proj_root = sample_root, proj_targets = []\<rparr>"
    by (simp_all add: schema_project_def)
  show ?thesis
    using vitest_generator_rerun_tsconfig [OF sample_generator_run sample_generator_rerun pc pc1 _ keeps_file_id_host]
      sample_generator_run sample_generator_rerun pc pc1 keeps_file_id_host by simp
qed

end
